theory Spec2Isabelle
  imports Main
begin

section \<open>Values of the Python program\<close>

text \<open>
  The service in \<open>src/app.py\<close> is a Flask application with five routes. Its functions are
  embedded here as HOL functions over explicit state. Whatever the program obtains from a
  library (the PDF parser, the language model, the speech engine, the random identifier)
  is an argument of the function that uses it.
\<close>

subsection \<open>Exceptions\<close>

text \<open>
  The handlers of the source distinguish \<open>FileNotFoundError\<close>, \<open>ValueError\<close> and
  \<open>Exception\<close>. An exception is its class, as far as these handlers and the framework tell
  classes apart (a subclass of \<open>ValueError\<close> counts as \<open>ValueError\<close>), and the text that
  \<open>str(e)\<close> gives. \<open>NotFound\<close> is the framework's HTTP 404 exception.
\<close>

datatype exn_class =
    FileNotFoundError | ValueError | TypeError | AttributeError | OverflowError
  | NotFound | OtherException

datatype exn = Exn (class_of: exn_class) (str_of: string)

subsection \<open>Decoded JSON\<close>

text \<open>
  \<open>request.json\<close> is a Python object decoded from JSON. A float is kept exactly, as
  mantissa and binary exponent (\<open>Finite m e\<close> is \<open>m * 2 ^ e\<close>), or as one of the special
  values that Python's decoder accepts. \<open>JObj\<close> lists the items of a dict, whose keys are
  distinct.
\<close>

datatype pyfloat = Finite int int | Infinity bool | NaN

datatype json =
    JNull | JBool bool | JInt int | JFloat pyfloat | JStr string
  | JList "json list" | JObj "(string \<times> json) list"

text \<open>Truth value of a decoded object, as \<open>not x\<close> tests it.\<close>

fun truthy :: "json \<Rightarrow> bool" where
  "truthy JNull = False"
| "truthy (JBool b) = b"
| "truthy (JInt i) = (i \<noteq> 0)"
| "truthy (JFloat (Finite m e)) = (m \<noteq> 0)"
| "truthy (JFloat (Infinity s)) = True"
| "truthy (JFloat NaN) = True"
| "truthy (JStr s) = (s \<noteq> [])"
| "truthy (JList xs) = (xs \<noteq> [])"
| "truthy (JObj kvs) = (kvs \<noteq> [])"

text \<open>
  \<open>data.get(key)\<close> and \<open>data.get(key, default)\<close>: only a dict has the method, on any
  other object the attribute lookup raises \<open>AttributeError\<close>.
\<close>

definition dict_get :: "json \<Rightarrow> string \<Rightarrow> json \<Rightarrow> exn + json" where
  "dict_get data key dflt =
     (case data of
        JObj kvs \<Rightarrow> (case map_of kvs key of None \<Rightarrow> Inr dflt | Some v \<Rightarrow> Inr v)
      | _ \<Rightarrow> Inl (Exn AttributeError ''object has no attribute 'get' ''))"

subsection \<open>Responses\<close>

datatype body = JsonBody json | HtmlBody string | FileBody string

datatype response = Response (body: body) (status: nat)

text \<open>\<open>jsonify(d)\<close> alone is status 200; \<open>jsonify(d), code\<close> sets the status.\<close>

definition jsonify :: "(string \<times> json) list \<Rightarrow> nat \<Rightarrow> response" where
  "jsonify d code = Response (JsonBody (JObj d)) code"

definition error_response :: "string \<Rightarrow> nat \<Rightarrow> response" where
  "error_response msg code = jsonify [(''error'', JStr msg)] code"

subsection \<open>The process state\<close>

text \<open>
  The state shared by requests is the file system, a map from a path as the program
  builds it to the file's content, and the lines printed so far. Paths are compared as
  strings: directories, links and \<open>..\<close> components are outside the model.
\<close>

record world =
  fs :: "string \<rightharpoonup> string"
  printed :: "string list"

definition print :: "string \<Rightarrow> world \<Rightarrow> world" where
  "print line w = w\<lparr>printed := printed w @ [line]\<rparr>"

definition UPLOAD_FOLDER :: string where
  "UPLOAD_FOLDER = ''uploads''"

definition AUDIO_FOLDER :: string where
  "AUDIO_FOLDER = ''audio_output''"

text \<open>\<open>os.path.join\<close> of two components (POSIX): an absolute second component wins.\<close>

definition path_join :: "string \<Rightarrow> string \<Rightarrow> string" where
  "path_join a b =
     (if b \<noteq> [] \<and> hd b = CHR ''/'' then b
      else if a = [] \<or> last a = CHR ''/'' then a @ b
      else a @ ''/'' @ b)"

definition path_exists :: "world \<Rightarrow> string \<Rightarrow> bool" where
  "path_exists w p = (fs w p \<noteq> None)"

section \<open>PDF text extraction\<close>

text \<open>
  The parser is a function from the bytes of a file to an exception or the list of pages
  (\<open>PdfReader(path)\<close> followed by \<open>reader.pages\<close>). A page's \<open>extract_text()\<close> raises,
  returns \<open>None\<close>, or returns a string.
\<close>

datatype page = Page (extract_text: "exn + string option")

type_synonym pdf_reader = "string \<Rightarrow> exn + page list"

text \<open>Opening a path that holds no file raises \<open>FileNotFoundError\<close>.\<close>

definition open_pdf :: "pdf_reader \<Rightarrow> world \<Rightarrow> string \<Rightarrow> exn + page list" where
  "open_pdf PdfReader w pdf_path =
     (case fs w pdf_path of
        None \<Rightarrow> Inl (Exn FileNotFoundError (''No such file or directory: '' @ pdf_path))
      | Some bytes \<Rightarrow> PdfReader bytes)"

text \<open>\<open>reader.pages[i]\<close>: a negative index counts from the end, out of range raises.\<close>

definition pages_at :: "page list \<Rightarrow> int \<Rightarrow> exn + page" where
  "pages_at pages i =
     (let k = (if i < 0 then i + int (length pages) else i)
      in if k < 0 \<or> int (length pages) \<le> k
         then Inl (Exn OtherException ''sequence index out of range'')
         else Inr (pages ! nat k))"

text \<open>\<open>x or ""\<close> for the result of \<open>extract_text()\<close>.\<close>

definition or_empty :: "string option \<Rightarrow> string" where
  "or_empty r = (case r of None \<Rightarrow> [] | Some s \<Rightarrow> s)"

text \<open>
  The \<open>for page_num in range(start_page - 1, end_page)\<close> loop (lines 47 to 50), over the
  page numbers still to visit, with the text accumulated so far.
\<close>

fun extract_loop :: "page list \<Rightarrow> int \<Rightarrow> int list \<Rightarrow> string \<Rightarrow> exn + string" where
  "extract_loop pages num_pages_actual [] acc = Inr acc"
| "extract_loop pages num_pages_actual (page_num # rest) acc =
     (if page_num < num_pages_actual then
        (case pages_at pages page_num of
           Inl e \<Rightarrow> Inl e
         | Inr p \<Rightarrow>
            (case extract_text p of
               Inl e \<Rightarrow> Inl e
             | Inr r \<Rightarrow> extract_loop pages num_pages_actual rest (acc @ or_empty r)))
      else extract_loop pages num_pages_actual rest acc)"

text \<open>The body of the \<open>try\<close> of \<open>extract_text_from_pdf\<close> (lines 37 to 51).\<close>

definition extract_body :: "pdf_reader \<Rightarrow> world \<Rightarrow> string \<Rightarrow> int \<Rightarrow> int \<Rightarrow> exn + string" where
  "extract_body PdfReader w pdf_path start_page end_page =
     (case open_pdf PdfReader w pdf_path of
        Inl e \<Rightarrow> Inl e
      | Inr pages \<Rightarrow>
         (let num_pages_actual = int (length pages);
              start_page' = max 1 start_page;
              end_page' = min num_pages_actual end_page
          in if start_page' > end_page' then Inr []
             else extract_loop pages num_pages_actual [start_page' - 1 .. end_page' - 1] []))"

text \<open>
  \<open>extract_text_from_pdf\<close>: an exception of the body is printed and raised again
  (lines 52 to 54).
\<close>

definition extract_text_from_pdf ::
  "pdf_reader \<Rightarrow> world \<Rightarrow> string \<Rightarrow> int \<Rightarrow> int \<Rightarrow> (exn + string) \<times> world" where
  "extract_text_from_pdf PdfReader w pdf_path start_page end_page =
     (case extract_body PdfReader w pdf_path start_page end_page of
        Inl e \<Rightarrow>
          (Inl e, print (''Error extracting text from PDF '' @ pdf_path @ '': '' @ str_of e) w)
      | Inr t \<Rightarrow> (Inr t, w))"

section \<open>Library functions on strings\<close>

text \<open>
  A character of the model is a code point below 256, so a string of the model is a
  Python string of such code points. \<open>str.strip()\<close> removes the characters for which
  \<open>str.isspace()\<close> holds; below 256 these are tab, line feed, vertical tab, form feed,
  carriage return, the separators \<open>0x1C\<close> to \<open>0x1F\<close>, the space, the next-line
  control \<open>0x85\<close> and the no-break space \<open>0xA0\<close>.
\<close>

definition is_space :: "char \<Rightarrow> bool" where
  "is_space c =
     (c \<in> set [CHR 0x09, CHR 0x0A, CHR 0x0B, CHR 0x0C, CHR 0x0D,
               CHR 0x1C, CHR 0x1D, CHR 0x1E, CHR 0x1F, CHR 0x20, CHR 0x85, CHR 0xA0])"

definition strip :: "string \<Rightarrow> string" where
  "strip s = rev (dropWhile is_space (rev (dropWhile is_space s)))"

definition digit_of :: "char \<Rightarrow> nat option" where
  "digit_of c =
     map_of [(CHR ''0'', 0), (CHR ''1'', 1), (CHR ''2'', 2), (CHR ''3'', 3), (CHR ''4'', 4),
             (CHR ''5'', 5), (CHR ''6'', 6), (CHR ''7'', 7), (CHR ''8'', 8), (CHR ''9'', 9)] c"

text \<open>
  The digits of a decimal literal after its first digit, with the value read so far: an
  underscore may stand between two digits.
\<close>

fun more_digits :: "nat \<Rightarrow> string \<Rightarrow> nat option" where
  "more_digits v [] = Some v"
| "more_digits v [c] = (case digit_of c of None \<Rightarrow> None | Some d \<Rightarrow> Some (10 * v + d))"
| "more_digits v (c # c' # cs) =
     (case digit_of c of
        Some d \<Rightarrow> more_digits (10 * v + d) (c' # cs)
      | None \<Rightarrow>
         if c = CHR ''_'' then
           (case digit_of c' of None \<Rightarrow> None | Some d \<Rightarrow> more_digits (10 * v + d) cs)
         else None)"

definition decimal :: "string \<Rightarrow> nat option" where
  "decimal s =
     (case s of
        [] \<Rightarrow> None
      | c # cs \<Rightarrow> (case digit_of c of None \<Rightarrow> None | Some d \<Rightarrow> more_digits d cs))"

text \<open>
  \<open>int(s)\<close> for a string, base ten. The white space skipped around the literal is tab,
  line feed, vertical tab, form feed, carriage return and the space, and of the code
  points from 128 on those for which \<open>str.isspace()\<close> holds, \<open>0x85\<close> and \<open>0xA0\<close>; the
  separators \<open>0x1C\<close> to \<open>0x1F\<close> are not skipped. One sign may lead. The only decimal
  digits below 256 are \<open>0\<close> to \<open>9\<close>. A literal of more than 4300 digits is refused
  (the interpreter's default limit, which the program does not change). \<open>None\<close> is the
  \<open>ValueError\<close> that \<open>int\<close> raises.
\<close>

definition is_int_space :: "char \<Rightarrow> bool" where
  "is_int_space c =
     (c \<in> set [CHR 0x09, CHR 0x0A, CHR 0x0B, CHR 0x0C, CHR 0x0D, CHR 0x20, CHR 0x85, CHR 0xA0])"

definition digit_count :: "string \<Rightarrow> nat" where
  "digit_count s = length (filter (\<lambda>c. digit_of c \<noteq> None) s)"

definition int_max_str_digits :: nat where
  "int_max_str_digits = 4300"

definition int_of_str :: "string \<Rightarrow> int option" where
  "int_of_str s =
     (case rev (dropWhile is_int_space (rev (dropWhile is_int_space s))) of
        [] \<Rightarrow> None
      | c # cs \<Rightarrow>
         if int_max_str_digits < digit_count (c # cs) then None
         else if c = CHR ''-'' then map_option (\<lambda>n. - int n) (decimal cs)
         else if c = CHR ''+'' then map_option int (decimal cs)
         else map_option int (decimal (c # cs)))"

text \<open>\<open>int(x)\<close> for a decoded JSON value: a float is truncated towards zero.\<close>

fun py_int :: "json \<Rightarrow> exn + int" where
  "py_int (JInt i) = Inr i"
| "py_int (JBool b) = Inr (if b then 1 else 0)"
| "py_int (JFloat (Finite m e)) =
     Inr (if 0 \<le> e then m * 2 ^ nat e else sgn m * (\<bar>m\<bar> div 2 ^ nat (- e)))"
| "py_int (JFloat (Infinity s)) = Inl (Exn OverflowError ''cannot convert float infinity to integer'')"
| "py_int (JFloat NaN) = Inl (Exn ValueError ''cannot convert float NaN to integer'')"
| "py_int (JStr s) =
     (case int_of_str s of
        None \<Rightarrow> Inl (Exn ValueError ''invalid literal for int() with base 10'')
      | Some i \<Rightarrow> Inr i)"
| "py_int JNull = Inl (Exn TypeError ''int() argument must be a string or a real number'')"
| "py_int (JList xs) = Inl (Exn TypeError ''int() argument must be a string or a real number'')"
| "py_int (JObj kvs) = Inl (Exn TypeError ''int() argument must be a string or a real number'')"

text \<open>
  \<open>str.lower()\<close>: below 256 the capital letters are \<open>A\<close> to \<open>Z\<close> and the code points
  \<open>0xC0\<close> to \<open>0xDE\<close> but \<open>0xD7\<close>, each 32 below its small letter.
\<close>

definition lower_char :: "char \<Rightarrow> char" where
  "lower_char c =
     (let n = (of_char c :: nat)
      in if (65 \<le> n \<and> n \<le> 90) \<or> (192 \<le> n \<and> n \<le> 222 \<and> n \<noteq> 215)
         then char_of (n + 32) else c)"

definition lower :: "string \<Rightarrow> string" where
  "lower s = map lower_char s"

text \<open>
  \<open>os.path.splitext(p)[1]\<close> (POSIX): the extension starts at the last dot of the last
  path component, unless only dots stand before it in that component.
\<close>

definition splitext_ext :: "string \<Rightarrow> string" where
  "splitext_ext p =
     (let base = rev (takeWhile (\<lambda>c. c \<noteq> CHR ''/'') (rev p));
          ext_rev = takeWhile (\<lambda>c. c \<noteq> CHR ''.'') (rev base);
          stem = take (length base - length ext_rev - 1) base
      in if CHR ''.'' \<in> set base \<and> list_ex (\<lambda>c. c \<noteq> CHR ''.'') stem
         then CHR ''.'' # rev ext_rev
         else [])"

section \<open>The routes\<close>

subsection \<open>Upload\<close>

text \<open>
  \<open>generate_unique_filename\<close>: \<open>uuid4\<close> is the text of the identifier that
  \<open>uuid.uuid4()\<close> draws at this call.
\<close>

definition generate_unique_filename :: "string \<Rightarrow> string \<Rightarrow> string" where
  "generate_unique_filename uuid4 original_filename = uuid4 @ splitext_ext original_filename"

record file_storage =
  filename :: string
  content :: string

text \<open>
  \<open>upload_pdf\<close>: \<open>files\<close> is \<open>request.files\<close>. The truth value of the uploaded file
  object (\<open>if file:\<close>) is that of its file name. \<open>file.save\<close> writes the content at the
  path.
\<close>

definition upload_pdf ::
  "pdf_reader \<Rightarrow> string \<Rightarrow> world \<Rightarrow> (string \<times> file_storage) list \<Rightarrow> response \<times> world" where
  "upload_pdf PdfReader uuid4 w files =
     (case map_of files ''file'' of
        None \<Rightarrow> (error_response ''No file part'' 400, w)
      | Some file \<Rightarrow>
         if filename file = [] then (error_response ''No selected file'' 400, w)
         else if lower (splitext_ext (filename file)) \<notin> {''.pdf''}
         then (error_response ''Invalid file type, only PDF allowed'' 400, w)
         else if filename file \<noteq> [] then
           (let unique_filename = generate_unique_filename uuid4 (filename file);
                pdf_path = path_join UPLOAD_FOLDER unique_filename;
                w1 = w\<lparr>fs := (fs w)(pdf_path \<mapsto> content file)\<rparr>
            in case open_pdf PdfReader w1 pdf_path of
                 Inr pages \<Rightarrow>
                   (jsonify [(''server_filename'', JStr unique_filename),
                             (''num_pages'', JInt (int (length pages)))] 200, w1)
               | Inl e \<Rightarrow>
                   (error_response ''Failed to process uploaded file'' 500,
                    print (''Error uploading/reading file '' @ filename file @ '': '' @ str_of e) w1))
         else (error_response ''File object is invalid'' 400, w))"

subsection \<open>Text of a page range\<close>

text \<open>
  Lines 98 to 101 of \<open>get_text\<close>: the three fields of the body, in the order the source
  reads and converts them. \<open>request_json\<close> is what \<open>request.json\<close> evaluates to.
\<close>

definition text_args :: "exn + json \<Rightarrow> exn + (json \<times> int \<times> int)" where
  "text_args request_json =
     (case request_json of Inl e \<Rightarrow> Inl e | Inr data \<Rightarrow>
      (case dict_get data ''server_filename'' JNull of Inl e \<Rightarrow> Inl e | Inr server_filename \<Rightarrow>
       (case dict_get data ''start_page'' (JInt 1) of Inl e \<Rightarrow> Inl e | Inr sp \<Rightarrow>
        (case py_int sp of Inl e \<Rightarrow> Inl e | Inr start_page \<Rightarrow>
         (case dict_get data ''end_page'' (JInt 1) of Inl e \<Rightarrow> Inl e | Inr ep \<Rightarrow>
          (case py_int ep of Inl e \<Rightarrow> Inl e | Inr end_page \<Rightarrow>
             Inr (server_filename, start_page, end_page)))))))"

text \<open>
  Lines 103 to 111. Joining the folder with a value that is not a string raises
  \<open>TypeError\<close>.
\<close>

definition text_lookup ::
  "pdf_reader \<Rightarrow> world \<Rightarrow> json \<Rightarrow> int \<Rightarrow> int \<Rightarrow> (exn + response) \<times> world" where
  "text_lookup PdfReader w server_filename start_page end_page =
     (if \<not> truthy server_filename then (Inr (error_response ''Missing server_filename'' 400), w)
      else
        (case server_filename of
           JStr name \<Rightarrow>
             (let pdf_path = path_join UPLOAD_FOLDER name
              in if \<not> path_exists w pdf_path
                 then (Inr (error_response ''PDF file not found on server'' 404), w)
                 else
                   (case extract_text_from_pdf PdfReader w pdf_path start_page end_page of
                      (Inl e, w') \<Rightarrow> (Inl e, w')
                    | (Inr t, w') \<Rightarrow> (Inr (jsonify [(''text'', JStr t)] 200), w')))
         | _ \<Rightarrow> (Inl (Exn TypeError ''expected str, bytes or os.PathLike object''), w)))"

definition get_text_body :: "pdf_reader \<Rightarrow> world \<Rightarrow> exn + json \<Rightarrow> (exn + response) \<times> world" where
  "get_text_body PdfReader w request_json =
     (case text_args request_json of
        Inl e \<Rightarrow> (Inl e, w)
      | Inr (server_filename, start_page, end_page) \<Rightarrow>
          text_lookup PdfReader w server_filename start_page end_page)"

text \<open>\<open>get_text\<close> with its three handlers (lines 112 to 118), tried in the source's order.\<close>

definition get_text :: "pdf_reader \<Rightarrow> world \<Rightarrow> exn + json \<Rightarrow> response \<times> world" where
  "get_text PdfReader w request_json =
     (case get_text_body PdfReader w request_json of
        (Inr r, w') \<Rightarrow> (r, w')
      | (Inl e, w') \<Rightarrow>
          if class_of e = FileNotFoundError
          then (error_response ''PDF file not found on server'' 404, w')
          else if class_of e = ValueError
          then (error_response ''Invalid page numbers provided'' 400, w')
          else (error_response ''Failed to extract text'' 500,
                print (''Error in /text endpoint: '' @ str_of e) w'))"

subsection \<open>Summary\<close>

text \<open>
  The remote model: \<open>ai_model.generate_content(prompt)\<close> raises or returns a response,
  whose \<open>text\<close> property raises or is a string.
\<close>

datatype gen_response = GenResponse (response_text: "exn + string")

type_synonym generative_model = "string \<Rightarrow> exn + gen_response"

text \<open>
  The text that the formatted string puts in place of \<open>{text}\<close>: a string stands for
  itself, any other value is shown by \<open>py_repr\<close>, Python's \<open>str\<close> on it.
\<close>

definition format_value :: "(json \<Rightarrow> string) \<Rightarrow> json \<Rightarrow> string" where
  "format_value py_repr v = (case v of JStr s \<Rightarrow> s | _ \<Rightarrow> py_repr v)"

definition newline :: string where
  "newline = [CHR 0x0A]"

definition indent :: string where
  "indent = replicate 8 (CHR '' '')"

text \<open>The prompt of lines 131 to 141, line by line.\<close>

definition prompt_of :: "string \<Rightarrow> string" where
  "prompt_of shown =
     ''Summarize the following text point-wise in Markdown format.'' @ newline @
     indent @ ''Each main point should start with '* '.'' @ newline @
     indent @ ''Ensure the summary is concise, well-structured, and covers the key information.'' @ newline @
     indent @ ''Do not include any introductory or concluding phrases like '' @ [CHR 0x22] @
       ''Here is the summary:'' @ [CHR 0x22] @ ''.'' @ newline @
     newline @
     indent @ ''Text to summarize:'' @ newline @
     indent @ ''---'' @ newline @
     indent @ shown @ newline @
     indent @ ''---'' @ newline @
     indent @ ''Summary:'' @ newline @
     indent"

text \<open>\<open>not GOOGLE_API_KEY\<close>: the variable is unset, or set to the empty string.\<close>

definition key_missing :: "string option \<Rightarrow> bool" where
  "key_missing GOOGLE_API_KEY = (case GOOGLE_API_KEY of None \<Rightarrow> True | Some k \<Rightarrow> k = [])"

text \<open>The body of the \<open>try\<close> of \<open>summarize_text\<close> (lines 125 to 147).\<close>

definition summarize_body ::
  "generative_model \<Rightarrow> (json \<Rightarrow> string) \<Rightarrow> exn + json \<Rightarrow> exn + response" where
  "summarize_body generate_content py_repr request_json =
     (case request_json of Inl e \<Rightarrow> Inl e | Inr data \<Rightarrow>
      (case dict_get data ''text'' JNull of Inl e \<Rightarrow> Inl e | Inr txt \<Rightarrow>
         if \<not> truthy txt then Inr (error_response ''No text provided for summarization'' 400)
         else
           (case generate_content (prompt_of (format_value py_repr txt)) of
              Inl e \<Rightarrow> Inl e
            | Inr resp \<Rightarrow>
               (case response_text resp of
                  Inl e \<Rightarrow> Inl e
                | Inr t \<Rightarrow> Inr (jsonify [(''summary'', JStr (strip t))] 200)))))"

definition summarize_text ::
  "string option \<Rightarrow> generative_model \<Rightarrow> (json \<Rightarrow> string) \<Rightarrow> world \<Rightarrow> exn + json
     \<Rightarrow> response \<times> world" where
  "summarize_text GOOGLE_API_KEY generate_content py_repr w request_json =
     (if key_missing GOOGLE_API_KEY
      then (error_response ''AI Service not configured on server'' 500, w)
      else
        (case summarize_body generate_content py_repr request_json of
           Inr r \<Rightarrow> (r, w)
         | Inl e \<Rightarrow>
             (error_response (''Failed to generate summary: '' @ str_of e) 500,
              print (''Error during summarization: '' @ str_of e) w)))"

subsection \<open>Speech\<close>

text \<open>
  The speech engine, call by call: \<open>pyttsx3.init()\<close>, \<open>save_to_file\<close> and \<open>stop\<close> may
  raise; \<open>runAndWait\<close> may write the audio of the queued text to the file and may raise.
\<close>

record tts_engine =
  init_raises :: "exn option"
  save_to_file_raises :: "exn option"
  runAndWait :: "json \<Rightarrow> string option \<times> exn option"
  stop_raises :: "exn option"

definition getsize :: "world \<Rightarrow> string \<Rightarrow> nat" where
  "getsize w p = (case fs w p of None \<Rightarrow> 0 | Some bytes \<Rightarrow> length bytes)"

text \<open>The body of the \<open>try\<close> of \<open>text_to_speech\<close> (lines 158 to 186).\<close>

definition text_to_speech_body ::
  "tts_engine \<Rightarrow> string \<Rightarrow> world \<Rightarrow> exn + json \<Rightarrow> (exn + response) \<times> world" where
  "text_to_speech_body engine uuid4 w request_json =
     (case request_json of Inl e \<Rightarrow> (Inl e, w) | Inr data \<Rightarrow>
      (case dict_get data ''text'' JNull of Inl e \<Rightarrow> (Inl e, w) | Inr txt \<Rightarrow>
         if \<not> truthy txt then (Inr (error_response ''No text provided for TTS'' 400), w)
         else
           (let audio_filename = uuid4 @ ''.mp3'';
                audio_filepath = path_join AUDIO_FOLDER audio_filename
            in case init_raises engine of Some e \<Rightarrow> (Inl e, w) | None \<Rightarrow>
               (case save_to_file_raises engine of Some e \<Rightarrow> (Inl e, w) | None \<Rightarrow>
                (let (written, raised) = runAndWait engine txt;
                     w1 = (case written of
                             None \<Rightarrow> w
                           | Some bytes \<Rightarrow> w\<lparr>fs := (fs w)(audio_filepath \<mapsto> bytes)\<rparr>)
                 in case raised of Some e \<Rightarrow> (Inl e, w1) | None \<Rightarrow>
                    (case stop_raises engine of Some e \<Rightarrow> (Inl e, w1) | None \<Rightarrow>
                     (let w2 = (if \<not> path_exists w1 audio_filepath \<or> getsize w1 audio_filepath = 0
                                then print (''Warning: TTS file might be empty or not created: ''
                                            @ audio_filepath) w1
                                else w1)
                      in (Inr (jsonify [(''status'', JStr ''completed''),
                                        (''audio_url'', JStr (''/audio/'' @ audio_filename))] 200),
                          w2))))))))"

definition text_to_speech ::
  "tts_engine \<Rightarrow> string \<Rightarrow> world \<Rightarrow> exn + json \<Rightarrow> response \<times> world" where
  "text_to_speech engine uuid4 w request_json =
     (case text_to_speech_body engine uuid4 w request_json of
        (Inr r, w') \<Rightarrow> (r, w')
      | (Inl e, w') \<Rightarrow>
          (error_response ''Failed to generate audio'' 500,
           print (''Error during Text-to-Speech: '' @ str_of e) w'))"

subsection \<open>Audio files\<close>

text \<open>
  The framework's \<open>send_from_directory\<close>, by its documentation: the file's content when
  the joined path is an existing file, and otherwise it raises \<open>NotFound\<close>, the HTTP 404
  exception (which is not a \<open>FileNotFoundError\<close>). The file name is taken as a plain name
  inside the folder.
\<close>

definition send_from_directory :: "world \<Rightarrow> string \<Rightarrow> string \<Rightarrow> exn + response" where
  "send_from_directory w directory name =
     (case fs w (path_join directory name) of
        None \<Rightarrow> Inl (Exn NotFound ''404 Not Found'')
      | Some bytes \<Rightarrow> Inr (Response (FileBody bytes) 200))"

text \<open>
  \<open>serve_audio\<close> (lines 193 to 200), over any implementation \<open>send\<close> of the framework's
  function: only a \<open>FileNotFoundError\<close> is handled, any other exception leaves the view.
\<close>

definition serve_audio :: "(string \<Rightarrow> string \<Rightarrow> exn + response) \<Rightarrow> string \<Rightarrow> exn + response" where
  "serve_audio send name =
     (case send AUDIO_FOLDER name of
        Inr r \<Rightarrow> Inr r
      | Inl e \<Rightarrow>
          if class_of e = FileNotFoundError
          then Inr (error_response ''Audio file not found'' 404)
          else Inl e)"

text \<open>
  What the framework answers for a view: the view's response, or for an exception that
  left the view its own page, which is HTML (the application registers no error handler).
\<close>

definition dispatch :: "exn + response \<Rightarrow> response" where
  "dispatch r =
     (case r of
        Inr resp \<Rightarrow> resp
      | Inl e \<Rightarrow>
          if class_of e = NotFound then Response (HtmlBody ''<h1>Not Found</h1>'') 404
          else Response (HtmlBody ''<h1>Internal Server Error</h1>'') 500)"

subsection \<open>The service\<close>

text \<open>
  A request carries what the outside world decides at that request: the body, the
  identifier drawn, the behaviour of the speech engine. The service holds what is fixed
  when the process starts: the value of \<open>GOOGLE_API_KEY\<close>, the PDF parser, the remote
  model and Python's \<open>str\<close> on values that are not strings.
\<close>

datatype request =
    POST_upload "(string \<times> file_storage) list" string
  | POST_text "exn + json"
  | POST_summarize "exn + json"
  | POST_tts "exn + json" tts_engine string
  | GET_audio string

record service =
  api_key :: "string option"
  pdf_reader :: pdf_reader
  ai_model :: generative_model
  repr :: "json \<Rightarrow> string"

fun handle :: "service \<Rightarrow> world \<Rightarrow> request \<Rightarrow> response \<times> world" where
  "handle sv w (POST_upload files uuid4) = upload_pdf (pdf_reader sv) uuid4 w files"
| "handle sv w (POST_text rj) = get_text (pdf_reader sv) w rj"
| "handle sv w (POST_summarize rj) =
     summarize_text (api_key sv) (ai_model sv) (repr sv) w rj"
| "handle sv w (POST_tts rj engine uuid4) = text_to_speech engine uuid4 w rj"
| "handle sv w (GET_audio name) = (dispatch (serve_audio (send_from_directory w) name), w)"

text \<open>A sequence of requests, served one after the other.\<close>

fun serve :: "service \<Rightarrow> world \<Rightarrow> request list \<Rightarrow> world" where
  "serve sv w [] = w"
| "serve sv w (r # rs) = serve sv (snd (handle sv w r)) rs"

text \<open>The path at which a request stores a file, if it stores one.\<close>

fun target_path :: "request \<Rightarrow> string option" where
  "target_path (POST_upload files uuid4) =
     (case map_of files ''file'' of
        None \<Rightarrow> None
      | Some file \<Rightarrow>
          Some (path_join UPLOAD_FOLDER (generate_unique_filename uuid4 (filename file))))"
| "target_path (POST_tts rj engine uuid4) = Some (path_join AUDIO_FOLDER (uuid4 @ ''.mp3''))"
| "target_path (POST_text rj) = None"
| "target_path (POST_summarize rj) = None"
| "target_path (GET_audio name) = None"

text \<open>
  The identifiers of a sequence of requests are fresh: each request that stores a file
  stores it at a path that holds no file when the request arrives.
\<close>

fun fresh_names :: "service \<Rightarrow> world \<Rightarrow> request list \<Rightarrow> bool" where
  "fresh_names sv w [] = True"
| "fresh_names sv w (r # rs) =
     ((case target_path r of None \<Rightarrow> True | Some p \<Rightarrow> fs w p = None)
      \<and> fresh_names sv (snd (handle sv w r)) rs)"

section \<open>Notions used to state the properties\<close>

text \<open>
  The text a page contributes, the first exception among the pages of a list, and the
  pages numbered \<open>s\<close> to \<open>e\<close> (counted from 1, both included) of a document.
\<close>

definition page_text :: "page \<Rightarrow> string" where
  "page_text p = (case extract_text p of Inl e \<Rightarrow> [] | Inr r \<Rightarrow> or_empty r)"

fun first_raised :: "page list \<Rightarrow> exn option" where
  "first_raised [] = None"
| "first_raised (p # ps) = (case extract_text p of Inl e \<Rightarrow> Some e | Inr r \<Rightarrow> first_raised ps)"

definition page_range :: "page list \<Rightarrow> int \<Rightarrow> int \<Rightarrow> page list" where
  "page_range pages s e = take (nat (e + 1 - s)) (drop (nat (s - 1)) pages)"

text \<open>
  The class of the exception a computation raises, if it raises one, and the value of
  the \<open>server_filename\<close> field of a request body (\<open>None\<close> of Python when absent).
\<close>

definition class_of_raised :: "exn + 'a \<Rightarrow> exn_class option" where
  "class_of_raised r = (case r of Inl x \<Rightarrow> Some (class_of x) | Inr v \<Rightarrow> None)"

definition server_filename_of :: "json \<Rightarrow> json" where
  "server_filename_of data =
     (case dict_get data ''server_filename'' JNull of Inl x \<Rightarrow> JNull | Inr v \<Rightarrow> v)"

text \<open>A response whose body is a JSON object with an \<open>error\<close> field holding a string.\<close>

definition json_error :: "response \<Rightarrow> bool" where
  "json_error r =
     (case body r of
        JsonBody (JObj d) \<Rightarrow> (case map_of d ''error'' of Some (JStr msg) \<Rightarrow> True | _ \<Rightarrow> False)
      | _ \<Rightarrow> False)"

text \<open>
  Example inputs: a document of three pages whose second page has no text, a document
  whose second page cannot be read, a parser that knows both, and a disk that holds both.
\<close>

definition demo_pages :: "page list" where
  "demo_pages = [Page (Inr (Some ''one '')), Page (Inr None), Page (Inr (Some ''three''))]"

definition broken_pages :: "page list" where
  "broken_pages =
     [Page (Inr (Some ''ab'')), Page (Inl (Exn OtherException ''boom'')), Page (Inr (Some ''cd''))]"

definition demo_reader :: pdf_reader where
  "demo_reader bytes =
     (if bytes = ''%PDF-demo'' then Inr demo_pages
      else if bytes = ''%PDF-broken'' then Inr broken_pages
      else Inl (Exn OtherException ''EOF marker not found''))"

definition demo_world :: world where
  "demo_world =
     \<lparr>fs = [''uploads/doc.pdf'' \<mapsto> ''%PDF-demo'', ''uploads/bad.pdf'' \<mapsto> ''%PDF-broken''],
      printed = []\<rparr>"

definition demo_files :: "(string \<times> file_storage) list" where
  "demo_files = [(''file'', \<lparr>filename = ''Report.PDF'', content = ''%PDF-demo''\<rparr>)]"

text \<open>
  A remote model that fails on the prompt for the text \<open>quota\<close>, whose answer to the
  prompt for \<open>blocked\<close> has no text, and that answers any other prompt with a bullet
  list surrounded by white space (a no-break space and a next-line control among it); and
  a rendering of values that are not strings.
\<close>

definition demo_answer :: string where
  "demo_answer =
     [CHR 0xA0] @ newline @ '' * first point'' @ newline @ ''* second point '' @ [CHR 0x85] @ newline"

definition demo_model :: generative_model where
  "demo_model prompt =
     (if prompt = prompt_of ''quota'' then Inl (Exn OtherException ''429 quota exceeded'')
      else if prompt = prompt_of ''blocked''
      then Inr (GenResponse (Inl (Exn ValueError ''response has no candidates'')))
      else Inr (GenResponse (Inr demo_answer)))"

definition demo_repr :: "json \<Rightarrow> string" where
  "demo_repr v = ''<value>''"

text \<open>
  Two speech engines that raise nothing: one writes no file, the other writes audio. A
  service with the example parser and model, and a few requests.
\<close>

definition silent_engine :: tts_engine where
  "silent_engine =
     \<lparr>init_raises = None, save_to_file_raises = None,
      runAndWait = (\<lambda>t. (None, None)), stop_raises = None\<rparr>"

definition working_engine :: tts_engine where
  "working_engine =
     \<lparr>init_raises = None, save_to_file_raises = None,
      runAndWait = (\<lambda>t. (Some ''ID3-audio'', None)), stop_raises = None\<rparr>"

definition demo_service :: service where
  "demo_service =
     \<lparr>api_key = Some ''secret'', pdf_reader = demo_reader, ai_model = demo_model,
      repr = demo_repr\<rparr>"

definition demo_requests :: "request list" where
  "demo_requests =
     [POST_upload demo_files ''0f8fad5b'',
      POST_text (Inr (JObj [(''server_filename'', JStr ''0f8fad5b.PDF'')])),
      POST_tts (Inr (JObj [(''text'', JStr ''one '')])) working_engine ''77aa'',
      GET_audio ''77aa.mp3'']"

section \<open>Properties of the extraction\<close>

lemma extract_loop_pages:
  "(\<And>i. i \<in> set ns \<Longrightarrow> 0 \<le> i \<and> i < int (length pages)) \<Longrightarrow>
   extract_loop pages (int (length pages)) ns acc =
     (case first_raised (map (\<lambda>i. pages ! nat i) ns) of
        Some x \<Rightarrow> Inl x
      | None \<Rightarrow> Inr (acc @ concat (map page_text (map (\<lambda>i. pages ! nat i) ns))))"
proof (induction ns arbitrary: acc)
  case Nil
  show ?case by simp
next
  case (Cons i ns)
  have i: "0 \<le> i" "i < int (length pages)" using Cons.prems[of i] by simp_all
  have rest: "\<And>j. j \<in> set ns \<Longrightarrow> 0 \<le> j \<and> j < int (length pages)"
    using Cons.prems by simp
  have at: "pages_at pages i = Inr (pages ! nat i)"
    using i by (simp add: pages_at_def)
  show ?case
  proof (cases "extract_text (pages ! nat i)")
    case (Inl x)
    then show ?thesis using i at by simp
  next
    case (Inr r)
    then have "page_text (pages ! nat i) = or_empty r" by (simp add: page_text_def)
    then show ?thesis using Inr i at Cons.IH[OF rest, of "acc @ or_empty r"]
      by (simp split: option.splits)
  qed
qed

lemma upto_slice:
  assumes "0 \<le> a" "b < int (length xs)"
  shows "map (\<lambda>i. xs ! nat i) [a..b] = take (nat (b + 1 - a)) (drop (nat a) xs)"
proof (rule nth_equalityI)
  show "length (map (\<lambda>i. xs ! nat i) [a..b]) = length (take (nat (b + 1 - a)) (drop (nat a) xs))"
    using assms by auto
next
  fix k assume "k < length (map (\<lambda>i. xs ! nat i) [a..b])"
  then have k: "int k < b + 1 - a" by auto
  then have "[a..b] ! k = a + int k" by (simp add: nth_upto)
  moreover have "nat (a + int k) = nat a + k" using assms by (simp add: nat_add_distrib)
  ultimately show "map (\<lambda>i. xs ! nat i) [a..b] ! k = take (nat (b + 1 - a)) (drop (nat a) xs) ! k"
    using k assms by simp
qed

lemma extract_body_opened:
  assumes "open_pdf PdfReader w pdf_path = Inr pages"
  shows "extract_body PdfReader w pdf_path start_page end_page =
     (let s = max 1 start_page; e = min (int (length pages)) end_page
      in if s > e then Inr []
         else (case first_raised (page_range pages s e) of
                 Some x \<Rightarrow> Inl x
               | None \<Rightarrow> Inr (concat (map page_text (page_range pages s e)))))"
proof -
  define s where "s = max 1 start_page"
  define e where "e = min (int (length pages)) end_page"
  have bounds: "\<And>i. i \<in> set [s - 1 .. e - 1] \<Longrightarrow> 0 \<le> i \<and> i < int (length pages)"
    by (auto simp: s_def e_def)
  have arith: "e - 1 + 1 - (s - 1) = e + 1 - s" by simp
  have slice: "map (\<lambda>i. pages ! nat i) [s - 1 .. e - 1] = page_range pages s e"
    using upto_slice[of "s - 1" "e - 1" pages] unfolding arith
    by (simp add: page_range_def s_def e_def)
  have loop: "extract_loop pages (int (length pages)) [s - 1 .. e - 1] [] =
      (case first_raised (page_range pages s e) of
         Some x \<Rightarrow> Inl x
       | None \<Rightarrow> Inr (concat (map page_text (page_range pages s e))))"
  proof -
    have "extract_loop pages (int (length pages)) [s - 1 .. e - 1] [] =
      (case first_raised (map (\<lambda>i. pages ! nat i) [s - 1 .. e - 1]) of
         Some x \<Rightarrow> Inl x
       | None \<Rightarrow> Inr ([] @ concat (map page_text (map (\<lambda>i. pages ! nat i) [s - 1 .. e - 1]))))"
      by (rule extract_loop_pages) (rule bounds)
    then show ?thesis by (simp only: slice append_Nil)
  qed
  have "extract_body PdfReader w pdf_path start_page end_page =
      (if s > e then Inr [] else extract_loop pages (int (length pages)) [s - 1 .. e - 1] [])"
    using assms by (simp add: extract_body_def Let_def s_def e_def)
  then have "extract_body PdfReader w pdf_path start_page end_page =
      (if s > e then Inr []
       else (case first_raised (page_range pages s e) of
               Some x \<Rightarrow> Inl x
             | None \<Rightarrow> Inr (concat (map page_text (page_range pages s e)))))"
    by (simp only: loop)
  then show ?thesis by (simp only: Let_def s_def e_def)
qed


lemma first_raised_None: "first_raised ps = None \<longleftrightarrow> (\<forall>p\<in>set ps. \<not> isl (extract_text p))"
  by (induction ps) (auto split: sum.splits)

lemma extract_text_from_pdf_opened:
  assumes "fs w pdf_path = Some bytes" and "reader bytes = Inr pages"
  shows "extract_text_from_pdf reader w pdf_path start_page end_page =
     (let s = max 1 start_page; e = min (int (length pages)) end_page
      in if s > e then (Inr [], w)
         else (case first_raised (page_range pages s e) of
                 Some x \<Rightarrow>
                   (Inl x, print (''Error extracting text from PDF '' @ pdf_path @ '': '' @ str_of x) w)
               | None \<Rightarrow> (Inr (concat (map page_text (page_range pages s e))), w)))"
proof -
  have "open_pdf reader w pdf_path = Inr pages"
    using assms by (simp add: open_pdf_def)
  from extract_body_opened[OF this, of start_page end_page]
  show ?thesis
    by (simp add: extract_text_from_pdf_def Let_def split: option.splits)
qed

text \<open>
  Claim C1, as stated: for every readable PDF and every pair of integers, when the clamped
  start does not exceed the clamped end the result is the concatenation of the texts of
  the pages of the clamped range. It does not hold when a page of the range raises: for
  the three-page document whose second page raises, the range 2 to 5 is clamped to 2 to 3
  and the extraction raises the page's exception instead of returning a string.
\<close>

theorem extract_range_counterexample:
  "fs demo_world ''uploads/bad.pdf'' = Some ''%PDF-broken''
   \<and> demo_reader ''%PDF-broken'' = Inr broken_pages
   \<and> max 1 2 \<le> min (int (length broken_pages)) 5
   \<and> fst (extract_text_from_pdf demo_reader demo_world ''uploads/bad.pdf'' 2 5)
        = Inl (Exn OtherException ''boom'')
   \<and> fst (extract_text_from_pdf demo_reader demo_world ''uploads/bad.pdf'' 2 5)
        \<noteq> Inr (concat (map page_text
             (page_range broken_pages (max 1 2) (min (int (length broken_pages)) 5))))"
  by (simp add: extract_text_from_pdf_def extract_body_def open_pdf_def demo_world_def
      demo_reader_def broken_pages_def pages_at_def or_empty_def Let_def upto.simps)

text \<open>
  Claim C1, amended. For a file that the parser reads, with \<open>length pages\<close> pages, and any
  two integers: the start is raised to at least 1 and the end lowered to at most the page
  count; when the clamped start exceeds the clamped end (in particular when the start is
  beyond the last page) the result is the empty string, nothing is raised and nothing is
  printed; otherwise, provided that \<open>extract_text()\<close> raises for no page of the clamped
  range, the result is the concatenation of the texts of these pages in page order.
\<close>

theorem extract_clamps_page_range:
  assumes "fs w pdf_path = Some bytes" and "reader bytes = Inr pages"
  shows "(max 1 start_page > min (int (length pages)) end_page \<longrightarrow>
            extract_text_from_pdf reader w pdf_path start_page end_page = (Inr [], w))
       \<and> (start_page > int (length pages) \<longrightarrow>
            extract_text_from_pdf reader w pdf_path start_page end_page = (Inr [], w))
       \<and> (max 1 start_page \<le> min (int (length pages)) end_page
            \<and> (\<forall>p \<in> set (page_range pages (max 1 start_page) (min (int (length pages)) end_page)).
                   \<not> isl (extract_text p)) \<longrightarrow>
            extract_text_from_pdf reader w pdf_path start_page end_page =
              (Inr (concat (map page_text
                 (page_range pages (max 1 start_page) (min (int (length pages)) end_page)))), w))"
proof -
  have eq: "extract_text_from_pdf reader w pdf_path start_page end_page =
     (let s = max 1 start_page; e = min (int (length pages)) end_page
      in if s > e then (Inr [], w)
         else (case first_raised (page_range pages s e) of
                 Some x \<Rightarrow>
                   (Inl x, print (''Error extracting text from PDF '' @ pdf_path @ '': '' @ str_of x) w)
               | None \<Rightarrow> (Inr (concat (map page_text (page_range pages s e))), w)))"
    using assms by (rule extract_text_from_pdf_opened)
  let ?s = "max 1 start_page" and ?e = "min (int (length pages)) end_page"
  have empty: "extract_text_from_pdf reader w pdf_path start_page end_page = (Inr [], w)"
    if "?s > ?e"
    unfolding eq Let_def using that by (simp only: if_True)
  have beyond: "?s > ?e" if "start_page > int (length pages)"
    using that by simp
  have some: "extract_text_from_pdf reader w pdf_path start_page end_page =
        (Inr (concat (map page_text (page_range pages ?s ?e))), w)"
    if "?s \<le> ?e" and "\<forall>p \<in> set (page_range pages ?s ?e). \<not> isl (extract_text p)"
  proof -
    have "\<not> ?s > ?e" using that(1) by (simp only: not_less)
    moreover have "first_raised (page_range pages ?s ?e) = None"
      using that(2) by (simp only: first_raised_None)
    ultimately show ?thesis
      unfolding eq Let_def by (simp only: if_False option.case)
  qed
  show ?thesis
    using empty beyond some by blast
qed

theorem extract_clamps_page_range_witness:
  "fs demo_world ''uploads/doc.pdf'' = Some ''%PDF-demo''
   \<and> demo_reader ''%PDF-demo'' = Inr demo_pages
   \<and> extract_text_from_pdf demo_reader demo_world ''uploads/doc.pdf'' 0 5
       = (Inr ''one three'', demo_world)
   \<and> extract_text_from_pdf demo_reader demo_world ''uploads/doc.pdf'' 2 3
       = (Inr ''three'', demo_world)
   \<and> extract_text_from_pdf demo_reader demo_world ''uploads/doc.pdf'' 4 9
       = (Inr [], demo_world)
   \<and> extract_text_from_pdf demo_reader demo_world ''uploads/doc.pdf'' 3 2
       = (Inr [], demo_world)"
proof -
  have f: "fs demo_world ''uploads/doc.pdf'' = Some ''%PDF-demo''"
    by (simp add: demo_world_def)
  have r: "demo_reader ''%PDF-demo'' = Inr demo_pages"
    by (simp add: demo_reader_def)
  show ?thesis
    using f r
      extract_clamps_page_range[where reader = demo_reader and w = demo_world
        and pdf_path = "''uploads/doc.pdf''" and bytes = "''%PDF-demo''" and pages = demo_pages
        and start_page = 0 and end_page = 5]
      extract_clamps_page_range[where reader = demo_reader and w = demo_world
        and pdf_path = "''uploads/doc.pdf''" and bytes = "''%PDF-demo''" and pages = demo_pages
        and start_page = 2 and end_page = 3]
      extract_clamps_page_range[where reader = demo_reader and w = demo_world
        and pdf_path = "''uploads/doc.pdf''" and bytes = "''%PDF-demo''" and pages = demo_pages
        and start_page = 4 and end_page = 9]
      extract_clamps_page_range[where reader = demo_reader and w = demo_world
        and pdf_path = "''uploads/doc.pdf''" and bytes = "''%PDF-demo''" and pages = demo_pages
        and start_page = 3 and end_page = 2]
    by (simp add: demo_pages_def page_range_def page_text_def or_empty_def)
qed

lemma first_raised_append:
  "first_raised (xs @ ys) = (case first_raised xs of Some x \<Rightarrow> Some x | None \<Rightarrow> first_raised ys)"
  by (induction xs) (auto split: sum.splits)

text \<open>
  Claim C2, as stated: a page of the range whose extraction fails counts as the empty
  string and the other pages are still returned. It does not hold for a page whose
  \<open>extract_text()\<close> raises: in the three-page document whose second page raises, the
  extraction of pages 1 to 3 raises that exception instead of returning the text of
  pages 1 and 3.
\<close>

theorem page_failure_counterexample:
  "fs demo_world ''uploads/bad.pdf'' = Some ''%PDF-broken''
   \<and> demo_reader ''%PDF-broken'' = Inr broken_pages
   \<and> length broken_pages = 3
   \<and> fst (extract_text_from_pdf demo_reader demo_world ''uploads/bad.pdf'' 1 3)
        = Inl (Exn OtherException ''boom'')
   \<and> fst (extract_text_from_pdf demo_reader demo_world ''uploads/bad.pdf'' 1 3)
        \<noteq> Inr (''ab'' @ [] @ ''cd'')"
  by (simp add: extract_text_from_pdf_def extract_body_def open_pdf_def demo_world_def
      demo_reader_def broken_pages_def pages_at_def or_empty_def Let_def upto.simps)

text \<open>
  Claim C2, amended. For a file that the parser reads and a page range within bounds: a
  page of the range for which \<open>extract_text()\<close> returns \<open>None\<close> or the empty string
  contributes nothing, and the texts of the other pages are concatenated, provided none of
  them raises; when \<open>extract_text()\<close> raises for a page, the pages before it having
  yielded their text, the whole extraction prints the error and raises that exception.
\<close>

theorem page_without_text_or_raising:
  assumes "fs w pdf_path = Some bytes" and "reader bytes = Inr pages"
    and "1 \<le> start_page" and "start_page \<le> end_page" and "end_page \<le> int (length pages)"
  shows "(\<forall>before p after.
            page_range pages start_page end_page = before @ p # after
            \<and> (extract_text p = Inr None \<or> extract_text p = Inr (Some []))
            \<and> (\<forall>q \<in> set (before @ after). \<not> isl (extract_text q)) \<longrightarrow>
            extract_text_from_pdf reader w pdf_path start_page end_page =
              (Inr (concat (map page_text before) @ concat (map page_text after)), w))
       \<and> (\<forall>before p after x.
            page_range pages start_page end_page = before @ p # after
            \<and> (\<forall>q \<in> set before. \<not> isl (extract_text q))
            \<and> extract_text p = Inl x \<longrightarrow>
            extract_text_from_pdf reader w pdf_path start_page end_page =
              (Inl x, print (''Error extracting text from PDF '' @ pdf_path @ '': '' @ str_of x) w))"
proof -
  let ?r = "page_range pages start_page end_page"
  have s: "max 1 start_page = start_page" and e: "min (int (length pages)) end_page = end_page"
    using assms(3,5) by simp_all
  have eq: "extract_text_from_pdf reader w pdf_path start_page end_page =
     (case first_raised ?r of
        Some x \<Rightarrow>
          (Inl x, print (''Error extracting text from PDF '' @ pdf_path @ '': '' @ str_of x) w)
      | None \<Rightarrow> (Inr (concat (map page_text ?r)), w))"
    using extract_text_from_pdf_opened[where reader = reader, OF assms(1,2), of start_page end_page]
      assms(4)
    unfolding s e Let_def by (simp only: not_less[symmetric] if_False)
  have quiet: "extract_text_from_pdf reader w pdf_path start_page end_page =
        (Inr (concat (map page_text before) @ concat (map page_text after)), w)"
    if "?r = before @ p # after"
      and "extract_text p = Inr None \<or> extract_text p = Inr (Some [])"
      and "\<forall>q \<in> set (before @ after). \<not> isl (extract_text q)"
    for before p after
  proof -
    have "\<forall>q \<in> set ?r. \<not> isl (extract_text q)"
      using that by auto
    then have none: "first_raised ?r = None"
      by (simp only: first_raised_None)
    have "page_text p = []"
      using that(2) by (auto simp: page_text_def or_empty_def)
    then have "concat (map page_text ?r) = concat (map page_text before) @ concat (map page_text after)"
      unfolding that(1) by simp
    then show ?thesis
      unfolding eq none by simp
  qed
  have abort: "extract_text_from_pdf reader w pdf_path start_page end_page =
        (Inl x, print (''Error extracting text from PDF '' @ pdf_path @ '': '' @ str_of x) w)"
    if "?r = before @ p # after"
      and "\<forall>q \<in> set before. \<not> isl (extract_text q)"
      and "extract_text p = Inl x"
    for before p after x
  proof -
    have "first_raised before = None"
      using that(2) by (simp only: first_raised_None)
    then have "first_raised ?r = Some x"
      unfolding that(1) using that(3) by (simp add: first_raised_append)
    then show ?thesis
      unfolding eq by simp
  qed
  show ?thesis
    using quiet abort by blast
qed

theorem page_without_text_or_raising_witness:
  "extract_text_from_pdf demo_reader demo_world ''uploads/doc.pdf'' 1 3
     = (Inr (''one '' @ ''three''), demo_world)
   \<and> extract_text_from_pdf demo_reader demo_world ''uploads/bad.pdf'' 1 3
     = (Inl (Exn OtherException ''boom''),
        print ''Error extracting text from PDF uploads/bad.pdf: boom'' demo_world)"
proof -
  have f: "fs demo_world ''uploads/doc.pdf'' = Some ''%PDF-demo''"
    and g: "fs demo_world ''uploads/bad.pdf'' = Some ''%PDF-broken''"
    by (simp_all add: demo_world_def)
  have r: "demo_reader ''%PDF-demo'' = Inr demo_pages"
    and b: "demo_reader ''%PDF-broken'' = Inr broken_pages"
    by (simp_all add: demo_reader_def)
  have in_bounds: "(1::int) \<le> 1" "(1::int) \<le> 3" "3 \<le> int (length demo_pages)"
    "3 \<le> int (length broken_pages)"
    by (simp_all add: demo_pages_def broken_pages_def)
  have quiet: "extract_text_from_pdf demo_reader demo_world ''uploads/doc.pdf'' 1 3
     = (Inr (''one '' @ ''three''), demo_world)"
    using page_without_text_or_raising[where reader = demo_reader, OF f r in_bounds(1,2,3),
        THEN conjunct1, rule_format,
        of "[Page (Inr (Some ''one ''))]" "Page (Inr None)" "[Page (Inr (Some ''three''))]"]
    by (simp add: demo_pages_def page_range_def page_text_def or_empty_def)
  have abort: "extract_text_from_pdf demo_reader demo_world ''uploads/bad.pdf'' 1 3
     = (Inl (Exn OtherException ''boom''),
        print ''Error extracting text from PDF uploads/bad.pdf: boom'' demo_world)"
    using page_without_text_or_raising[where reader = demo_reader, OF g b in_bounds(1,2,4),
        THEN conjunct2, rule_format,
        of "[Page (Inr (Some ''ab''))]" "Page (Inl (Exn OtherException ''boom''))"
           "[Page (Inr (Some ''cd''))]" "Exn OtherException ''boom''"]
    by (simp add: broken_pages_def page_range_def)
  show ?thesis using quiet abort by simp
qed

section \<open>Properties of the text route\<close>

lemma dict_get_append_absent:
  "map_of kvs key = None \<Longrightarrow>
   dict_get (JObj (kvs @ [(key, v)])) key' dflt =
     (if key' = key then Inr v else dict_get (JObj kvs) key' dflt)"
  by (auto simp: dict_get_def map_add_def split: option.splits)

lemma dict_get_absent: "map_of kvs key = None \<Longrightarrow> dict_get (JObj kvs) key dflt = Inr dflt"
  by (simp add: dict_get_def)

lemma text_args_start_default:
  assumes "map_of kvs ''start_page'' = None"
  shows "text_args (Inr (JObj (kvs @ [(''start_page'', JInt 1)]))) = text_args (Inr (JObj kvs))"
  using assms
  by (simp add: text_args_def dict_get_append_absent dict_get_absent cong: sum.case_cong)

lemma text_args_end_default:
  assumes "map_of kvs ''end_page'' = None"
  shows "text_args (Inr (JObj (kvs @ [(''end_page'', JInt 1)]))) = text_args (Inr (JObj kvs))"
  using assms
  by (simp add: text_args_def dict_get_append_absent dict_get_absent cong: sum.case_cong)

lemma text_args_only_name:
  "text_args (Inr (JObj [(''server_filename'', JStr name)])) = Inr (JStr name, 1, 1)"
  by (simp add: text_args_def dict_get_def)

lemma page_range_first: "page_range (p # ps) 1 1 = [p]"
  by (simp add: page_range_def)

text \<open>
  Claim C10. A page number that the body of a \<open>/text\<close> request omits is 1: the response
  and the state are those of the request with the field added with value 1. A body with
  \<open>server_filename\<close> only, naming a stored document that has a first page, is answered
  with the text of page 1 alone.
\<close>

theorem omitted_page_defaults_to_one:
  "(map_of kvs ''start_page'' = None \<longrightarrow>
      get_text reader w (Inr (JObj kvs)) =
      get_text reader w (Inr (JObj (kvs @ [(''start_page'', JInt 1)]))))
   \<and> (map_of kvs ''end_page'' = None \<longrightarrow>
      get_text reader w (Inr (JObj kvs)) =
      get_text reader w (Inr (JObj (kvs @ [(''end_page'', JInt 1)]))))
   \<and> (name \<noteq> [] \<and> fs w (path_join UPLOAD_FOLDER name) = Some bytes
       \<and> reader bytes = Inr (p # ps) \<and> extract_text p = Inr r \<longrightarrow>
      get_text reader w (Inr (JObj [(''server_filename'', JStr name)])) =
        (jsonify [(''text'', JStr (or_empty r))] 200, w))"
proof -
  have a: "get_text reader w (Inr (JObj kvs)) =
      get_text reader w (Inr (JObj (kvs @ [(''start_page'', JInt 1)])))"
    if "map_of kvs ''start_page'' = None"
    using text_args_start_default[OF that] by (simp add: get_text_def get_text_body_def)
  have b: "get_text reader w (Inr (JObj kvs)) =
      get_text reader w (Inr (JObj (kvs @ [(''end_page'', JInt 1)])))"
    if "map_of kvs ''end_page'' = None"
    using text_args_end_default[OF that] by (simp add: get_text_def get_text_body_def)
  have c: "get_text reader w (Inr (JObj [(''server_filename'', JStr name)])) =
        (jsonify [(''text'', JStr (or_empty r))] 200, w)"
    if "name \<noteq> []" and "fs w (path_join UPLOAD_FOLDER name) = Some bytes"
      and "reader bytes = Inr (p # ps)" and "extract_text p = Inr r"
  proof -
    have "extract_text_from_pdf reader w (path_join UPLOAD_FOLDER name) 1 1 = (Inr (or_empty r), w)"
      using extract_text_from_pdf_opened[where reader = reader, OF that(2,3), of 1 1] that(4)
      by (simp add: page_range_first page_text_def)
    then show ?thesis
      using that(1,2)
      by (simp add: get_text_def get_text_body_def text_args_only_name text_lookup_def
          path_exists_def)
  qed
  show ?thesis using a b c by blast
qed

theorem omitted_page_defaults_to_one_witness:
  "get_text demo_reader demo_world (Inr (JObj [(''server_filename'', JStr ''doc.pdf'')]))
     = (jsonify [(''text'', JStr ''one '')] 200, demo_world)
   \<and> get_text demo_reader demo_world
        (Inr (JObj [(''server_filename'', JStr ''doc.pdf''), (''end_page'', JInt 3)]))
     = get_text demo_reader demo_world
        (Inr (JObj [(''server_filename'', JStr ''doc.pdf''), (''end_page'', JInt 3),
                    (''start_page'', JInt 1)]))
   \<and> get_text demo_reader demo_world
        (Inr (JObj [(''server_filename'', JStr ''doc.pdf''), (''start_page'', JInt 1)]))
     = get_text demo_reader demo_world
        (Inr (JObj [(''server_filename'', JStr ''doc.pdf''), (''start_page'', JInt 1),
                    (''end_page'', JInt 1)]))"
proof -
  have f: "''doc.pdf'' \<noteq> [] \<and> fs demo_world (path_join UPLOAD_FOLDER ''doc.pdf'') = Some ''%PDF-demo''
      \<and> demo_reader ''%PDF-demo'' = Inr (Page (Inr (Some ''one '')) # [Page (Inr None), Page (Inr (Some ''three''))])
      \<and> extract_text (Page (Inr (Some ''one ''))) = Inr (Some ''one '')"
    by (simp add: demo_world_def path_join_def UPLOAD_FOLDER_def demo_reader_def demo_pages_def)
  have s: "map_of [(''server_filename'', JStr ''doc.pdf''), (''end_page'', JInt 3)] ''start_page'' = None"
    by simp
  have e: "map_of [(''server_filename'', JStr ''doc.pdf''), (''start_page'', JInt 1)] ''end_page'' = None"
    by simp
  show ?thesis
    using f
      omitted_page_defaults_to_one[where reader = demo_reader and w = demo_world
        and name = "''doc.pdf''" and bytes = "''%PDF-demo''" and p = "Page (Inr (Some ''one ''))"
        and ps = "[Page (Inr None), Page (Inr (Some ''three''))]" and r = "Some ''one ''",
        THEN conjunct2, THEN conjunct2]
      omitted_page_defaults_to_one[where kvs = "[(''server_filename'', JStr ''doc.pdf''), (''end_page'', JInt 3)]"
        and reader = demo_reader and w = demo_world, THEN conjunct1] s
      omitted_page_defaults_to_one[where kvs = "[(''server_filename'', JStr ''doc.pdf''), (''start_page'', JInt 1)]"
        and reader = demo_reader and w = demo_world, THEN conjunct2, THEN conjunct1] e
    by (simp add: or_empty_def)
qed

lemma text_args_dict:
  assumes "dict_get data ''start_page'' (JInt 1) = Inr sp"
    and "dict_get data ''end_page'' (JInt 1) = Inr ep"
  shows "text_args (Inr data) =
     (case dict_get data ''server_filename'' JNull of
        Inl x \<Rightarrow> Inl x
      | Inr server_filename \<Rightarrow>
         (case py_int sp of
            Inl x \<Rightarrow> Inl x
          | Inr s \<Rightarrow> (case py_int ep of Inl x \<Rightarrow> Inl x | Inr e \<Rightarrow> Inr (server_filename, s, e))))"
  using assms by (simp add: text_args_def cong: sum.case_cong)

lemma dict_get_is_dict:
  "dict_get data key dflt = Inr v \<Longrightarrow> \<exists>v'. dict_get data key' dflt' = Inr v'"
  by (cases data) (auto simp: dict_get_def split: option.splits)

text \<open>
  Claim C5, as stated: a \<open>start_page\<close> or \<open>end_page\<close> that is not an integer is answered
  with status 400, without extraction. It does not hold: the source converts the values
  with \<open>int()\<close>, which accepts more than integers. With \<open>start_page\<close> 2.5 (the float
  \<open>5 * 2 ^ (-1)\<close>) the request is served as for page 2, with status 200 and the text of
  pages 2 to 3.
\<close>

theorem non_integer_page_counterexample:
  "get_text demo_reader demo_world
     (Inr (JObj [(''server_filename'', JStr ''doc.pdf''),
                 (''start_page'', JFloat (Finite 5 (- 1))),
                 (''end_page'', JInt 3)]))
   = (Response (JsonBody (JObj [(''text'', JStr ''three'')])) 200, demo_world)"
  by (simp add: get_text_def get_text_body_def text_args_def dict_get_def text_lookup_def
      path_join_def UPLOAD_FOLDER_def path_exists_def demo_world_def
      extract_text_from_pdf_def extract_body_def open_pdf_def demo_reader_def demo_pages_def
      pages_at_def or_empty_def Let_def upto.simps jsonify_def)

text \<open>
  Claim C5, amended. For a \<open>/text\<close> request whose body is a JSON object: when \<open>int()\<close>
  raises \<open>ValueError\<close> on the \<open>start_page\<close> value, or accepts it and raises
  \<open>ValueError\<close> on the \<open>end_page\<close> value (a string that is not a decimal literal), the
  answer is status 400 with the error \<open>Invalid page numbers provided\<close>, whatever the
  disk holds, and the state is unchanged: no extraction takes place. When \<open>int()\<close> accepts
  both values (integers, booleans, finite floats, strings holding a decimal literal), the
  request is served as the request with the converted integers.
\<close>

theorem invalid_page_literal_rejected:
  assumes "dict_get data ''start_page'' (JInt 1) = Inr sp"
    and "dict_get data ''end_page'' (JInt 1) = Inr ep"
  shows "(class_of_raised (py_int sp) = Some ValueError
          \<or> (class_of_raised (py_int sp) = None \<and> class_of_raised (py_int ep) = Some ValueError) \<longrightarrow>
            get_text reader w (Inr data) = (error_response ''Invalid page numbers provided'' 400, w))
       \<and> (\<forall>s e. py_int sp = Inr s \<and> py_int ep = Inr e \<longrightarrow>
            get_text reader w (Inr data) =
              get_text reader w
                (Inr (JObj [(''server_filename'', server_filename_of data),
                            (''start_page'', JInt s), (''end_page'', JInt e)])))"
proof -
  obtain sf where sf: "dict_get data ''server_filename'' JNull = Inr sf"
    using dict_get_is_dict[OF assms(1)] by blast
  have args: "text_args (Inr data) =
      (case py_int sp of
         Inl x \<Rightarrow> Inl x
       | Inr s \<Rightarrow> (case py_int ep of Inl x \<Rightarrow> Inl x | Inr e \<Rightarrow> Inr (sf, s, e)))"
    using text_args_dict[OF assms] sf by simp
  have bad: "get_text reader w (Inr data) = (error_response ''Invalid page numbers provided'' 400, w)"
    if "class_of_raised (py_int sp) = Some ValueError
        \<or> (class_of_raised (py_int sp) = None \<and> class_of_raised (py_int ep) = Some ValueError)"
    using that args
    by (auto simp: get_text_def get_text_body_def class_of_raised_def split: sum.splits)
  have good: "get_text reader w (Inr data) =
      get_text reader w
        (Inr (JObj [(''server_filename'', server_filename_of data),
                    (''start_page'', JInt s), (''end_page'', JInt e)]))"
    if "py_int sp = Inr s" and "py_int ep = Inr e" for s e
  proof -
    have "server_filename_of data = sf"
      using sf by (simp add: server_filename_of_def)
    then have "text_args (Inr (JObj [(''server_filename'', server_filename_of data),
                    (''start_page'', JInt s), (''end_page'', JInt e)])) = Inr (sf, s, e)"
      by (simp add: text_args_def dict_get_def)
    moreover have "text_args (Inr data) = Inr (sf, s, e)"
      using args that by simp
    ultimately show ?thesis
      by (simp add: get_text_def get_text_body_def)
  qed
  show ?thesis using bad good by blast
qed


theorem invalid_page_literal_rejected_witness:
  "class_of_raised (py_int (JStr ''abc'')) = Some ValueError
   \<and> class_of_raised (py_int (JStr ''2nd'')) = Some ValueError
   \<and> get_text demo_reader demo_world
        (Inr (JObj [(''server_filename'', JStr ''doc.pdf''), (''start_page'', JStr ''abc''),
                    (''end_page'', JInt 2)]))
     = (error_response ''Invalid page numbers provided'' 400, demo_world)
   \<and> get_text demo_reader demo_world
        (Inr (JObj [(''server_filename'', JStr ''doc.pdf''), (''end_page'', JStr ''2nd'')]))
     = (error_response ''Invalid page numbers provided'' 400, demo_world)
   \<and> get_text demo_reader demo_world
        (Inr (JObj [(''server_filename'', JStr ''doc.pdf''), (''start_page'', JStr (CHR 0xA0 # ''2 '')),
                    (''end_page'', JBool True)]))
     = get_text demo_reader demo_world
        (Inr (JObj [(''server_filename'', JStr ''doc.pdf''), (''start_page'', JInt 2),
                    (''end_page'', JInt 1)]))"
proof -
  have abc: "class_of_raised (py_int (JStr ''abc'')) = Some ValueError"
    by (simp add: class_of_raised_def int_of_str_def is_int_space_def digit_count_def int_max_str_digits_def decimal_def digit_of_def)
  have snd: "class_of_raised (py_int (JStr ''2nd'')) = Some ValueError"
    by (simp add: class_of_raised_def int_of_str_def is_int_space_def digit_count_def int_max_str_digits_def decimal_def digit_of_def)
  have one: "class_of_raised (py_int (JInt 1)) = None"
    by (simp add: class_of_raised_def)
  have two: "py_int (JStr (CHR 0xA0 # ''2 '')) = Inr 2"
    by (simp add: int_of_str_def is_int_space_def digit_count_def int_max_str_digits_def decimal_def digit_of_def)
  have true: "py_int (JBool True) = Inr 1"
    by simp
  let ?d1 = "JObj [(''server_filename'', JStr ''doc.pdf''), (''start_page'', JStr ''abc''),
                    (''end_page'', JInt 2)]"
  let ?d2 = "JObj [(''server_filename'', JStr ''doc.pdf''), (''end_page'', JStr ''2nd'')]"
  let ?d3 = "JObj [(''server_filename'', JStr ''doc.pdf''), (''start_page'', JStr (CHR 0xA0 # ''2 '')),
                    (''end_page'', JBool True)]"
  have g1: "dict_get ?d1 ''start_page'' (JInt 1) = Inr (JStr ''abc'')"
    "dict_get ?d1 ''end_page'' (JInt 1) = Inr (JInt 2)"
    by (simp_all add: dict_get_def)
  have g2: "dict_get ?d2 ''start_page'' (JInt 1) = Inr (JInt 1)"
    "dict_get ?d2 ''end_page'' (JInt 1) = Inr (JStr ''2nd'')"
    by (simp_all add: dict_get_def)
  have g3: "dict_get ?d3 ''start_page'' (JInt 1) = Inr (JStr (CHR 0xA0 # ''2 ''))"
    "dict_get ?d3 ''end_page'' (JInt 1) = Inr (JBool True)"
    by (simp_all add: dict_get_def)
  have sf: "server_filename_of ?d3 = JStr ''doc.pdf''"
    by (simp add: server_filename_of_def dict_get_def)
  show ?thesis
    using abc snd one
      invalid_page_literal_rejected[OF g1, of demo_reader demo_world, THEN conjunct1]
      invalid_page_literal_rejected[OF g2, of demo_reader demo_world, THEN conjunct1]
      invalid_page_literal_rejected[OF g3, of demo_reader demo_world, THEN conjunct2,
        rule_format, of 2 1] two true sf
    by simp
qed

lemma extract_body_same_file:
  "fs w1 p1 = Some bytes \<Longrightarrow> fs w2 p2 = Some bytes \<Longrightarrow>
   extract_body reader w1 p1 s e = extract_body reader w2 p2 s e"
  by (simp add: extract_body_def open_pdf_def)

lemma extract_text_from_pdf_result:
  "extract_text_from_pdf reader w p s e = (Inr t, w') \<longleftrightarrow> extract_body reader w p s e = Inr t \<and> w' = w"
  by (auto simp: extract_text_from_pdf_def split: sum.splits)

lemma upload_pdf_success:
  assumes "upload_pdf reader uuid4 w files =
      (jsonify [(''server_filename'', JStr name), (''num_pages'', JInt n)] 200, w')"
  shows "\<exists>file pages.
      map_of files ''file'' = Some file
      \<and> lower (splitext_ext (filename file)) = ''.pdf''
      \<and> name = generate_unique_filename uuid4 (filename file)
      \<and> w' = w\<lparr>fs := (fs w)(path_join UPLOAD_FOLDER name \<mapsto> content file)\<rparr>
      \<and> reader (content file) = Inr pages
      \<and> n = int (length pages)"
  using assms
  by (auto simp: upload_pdf_def Let_def open_pdf_def jsonify_def error_response_def
      split: option.splits if_splits sum.splits)

text \<open>
  Claim C6. When \<open>/upload\<close> of a file succeeds and answers a name and a page count
  \<open>n\<close>, and the extraction of pages 1 to \<open>n\<close> straight from the original file (the
  same bytes, wherever they are stored) yields the text \<open>t\<close>, then \<open>/text\<close> with that
  name and the range 1 to \<open>n\<close>, in the state the upload left, answers \<open>t\<close>.
\<close>

theorem upload_then_text_round_trip:
  assumes "upload_pdf reader uuid4 w files =
      (jsonify [(''server_filename'', JStr name), (''num_pages'', JInt n)] 200, w')"
    and "map_of files ''file'' = Some file"
    and "fs w0 p0 = Some (content file)"
    and "extract_text_from_pdf reader w0 p0 1 n = (Inr t, w0')"
  shows "get_text reader w'
           (Inr (JObj [(''server_filename'', JStr name), (''start_page'', JInt 1),
                       (''end_page'', JInt n)]))
         = (jsonify [(''text'', JStr t)] 200, w')"
proof -
  from upload_pdf_success[OF assms(1)] assms(2)
  obtain pages where ext: "lower (splitext_ext (filename file)) = ''.pdf''"
    and name: "name = generate_unique_filename uuid4 (filename file)"
    and w': "w' = w\<lparr>fs := (fs w)(path_join UPLOAD_FOLDER name \<mapsto> content file)\<rparr>"
    by auto
  let ?path = "path_join UPLOAD_FOLDER name"
  have stored: "fs w' ?path = Some (content file)"
    by (simp add: w')
  have "splitext_ext (filename file) \<noteq> []"
    using ext by (auto simp: lower_def)
  then have nonempty: "name \<noteq> []"
    by (simp add: name generate_unique_filename_def)
  have "extract_body reader w0 p0 1 n = Inr t"
    using assms(4) by (simp add: extract_text_from_pdf_result)
  then have "extract_body reader w' ?path 1 n = Inr t"
    using extract_body_same_file[OF stored assms(3), of reader 1 n] by simp
  then have "extract_text_from_pdf reader w' ?path 1 n = (Inr t, w')"
    by (simp add: extract_text_from_pdf_result)
  moreover have "text_args (Inr (JObj [(''server_filename'', JStr name), (''start_page'', JInt 1),
                       (''end_page'', JInt n)])) = Inr (JStr name, 1, n)"
    by (simp add: text_args_def dict_get_def)
  ultimately show ?thesis
    using nonempty stored
    by (simp add: get_text_def get_text_body_def text_lookup_def path_exists_def)
qed

lemma demo_extension: "splitext_ext ''Report.PDF'' = ''.PDF''" "lower ''.PDF'' = ''.pdf''"
  by (simp add: splitext_ext_def) code_simp

theorem upload_then_text_round_trip_witness:
  "upload_pdf demo_reader ''0f8fad5b'' demo_world demo_files
     = (jsonify [(''server_filename'', JStr ''0f8fad5b.PDF''), (''num_pages'', JInt 3)] 200,
        demo_world\<lparr>fs := (fs demo_world)(''uploads/0f8fad5b.PDF'' \<mapsto> ''%PDF-demo'')\<rparr>)
   \<and> extract_text_from_pdf demo_reader demo_world ''uploads/doc.pdf'' 1 3
     = (Inr ''one three'', demo_world)
   \<and> get_text demo_reader
        (demo_world\<lparr>fs := (fs demo_world)(''uploads/0f8fad5b.PDF'' \<mapsto> ''%PDF-demo'')\<rparr>)
        (Inr (JObj [(''server_filename'', JStr ''0f8fad5b.PDF''), (''start_page'', JInt 1),
                    (''end_page'', JInt 3)]))
     = (jsonify [(''text'', JStr ''one three'')] 200,
        demo_world\<lparr>fs := (fs demo_world)(''uploads/0f8fad5b.PDF'' \<mapsto> ''%PDF-demo'')\<rparr>)"
proof -
  let ?w' = "demo_world\<lparr>fs := (fs demo_world)(''uploads/0f8fad5b.PDF'' \<mapsto> ''%PDF-demo'')\<rparr>"
  have up: "upload_pdf demo_reader ''0f8fad5b'' demo_world demo_files
     = (jsonify [(''server_filename'', JStr ''0f8fad5b.PDF''), (''num_pages'', JInt 3)] 200, ?w')"
    by (simp add: upload_pdf_def demo_files_def demo_extension generate_unique_filename_def
        path_join_def UPLOAD_FOLDER_def open_pdf_def demo_reader_def demo_pages_def Let_def)
  have stored_file: "map_of demo_files ''file'' = Some \<lparr>filename = ''Report.PDF'', content = ''%PDF-demo''\<rparr>"
    by (simp add: demo_files_def)
  have orig: "fs demo_world ''uploads/doc.pdf''
      = Some (content \<lparr>filename = ''Report.PDF'', content = ''%PDF-demo''\<rparr>)"
    by (simp add: demo_world_def)
  have direct: "extract_text_from_pdf demo_reader demo_world ''uploads/doc.pdf'' 1 3
     = (Inr ''one three'', demo_world)"
    by (simp add: extract_text_from_pdf_def extract_body_def open_pdf_def demo_world_def
      demo_reader_def demo_pages_def pages_at_def or_empty_def Let_def upto.simps)
  show ?thesis
    using up direct upload_then_text_round_trip[OF up stored_file orig direct] by simp
qed

section \<open>Properties of the summary route\<close>

text \<open>
  Claim C4. When the credential is absent (unset or empty), \<open>/summarize\<close> answers status
  500 with the error \<open>AI Service not configured on server\<close>, whatever the request body
  is (also a body without \<open>text\<close>, or one that cannot be decoded), whatever the remote
  model would do, and without any change of the state: the check comes before everything
  else.
\<close>

theorem summarize_without_credential:
  assumes "key_missing key"
  shows "summarize_text key model shown w request_json =
           (error_response ''AI Service not configured on server'' 500, w)"
  using assms by (simp add: summarize_text_def)

theorem summarize_without_credential_witness:
  "key_missing None \<and> key_missing (Some [])
   \<and> summarize_text None demo_model demo_repr demo_world (Inr (JObj []))
       = (Response (JsonBody (JObj [(''error'', JStr ''AI Service not configured on server'')])) 500,
          demo_world)
   \<and> summarize_text (Some []) demo_model demo_repr demo_world
         (Inl (Exn OtherException ''415 Unsupported Media Type''))
       = (Response (JsonBody (JObj [(''error'', JStr ''AI Service not configured on server'')])) 500,
          demo_world)
   \<and> summarize_text (Some ''secret'') demo_model demo_repr demo_world (Inr (JObj []))
       = (Response (JsonBody (JObj [(''error'', JStr ''No text provided for summarization'')])) 400,
          demo_world)"
proof -
  have none: "key_missing None" and empty: "key_missing (Some [])"
    by (simp_all add: key_missing_def)
  have configured: "summarize_text (Some ''secret'') demo_model demo_repr demo_world (Inr (JObj []))
       = (Response (JsonBody (JObj [(''error'', JStr ''No text provided for summarization'')])) 400,
          demo_world)"
    by (simp add: summarize_text_def key_missing_def summarize_body_def dict_get_def
        error_response_def jsonify_def)
  show ?thesis
    using none empty configured
      summarize_without_credential[OF none, of demo_model demo_repr demo_world "Inr (JObj [])"]
      summarize_without_credential[OF empty, of demo_model demo_repr demo_world
        "Inl (Exn OtherException ''415 Unsupported Media Type'')"]
    by (simp add: error_response_def jsonify_def)
qed

lemma strip_as_affixes:
  "\<exists>l r. t = l @ strip t @ r \<and> (\<forall>c \<in> set l. is_space c) \<and> (\<forall>c \<in> set r. is_space c)"
proof -
  let ?a = "dropWhile is_space t"
  have 1: "t = takeWhile is_space t @ ?a" by simp
  have "rev ?a = takeWhile is_space (rev ?a) @ dropWhile is_space (rev ?a)" by simp
  then have "?a = rev (dropWhile is_space (rev ?a)) @ rev (takeWhile is_space (rev ?a))"
    by (metis rev_append rev_rev_ident)
  then have 2: "?a = strip t @ rev (takeWhile is_space (rev ?a))"
    by (simp add: strip_def)
  have "t = takeWhile is_space t @ strip t @ rev (takeWhile is_space (rev ?a))"
    using 1 2 by metis
  moreover have "\<forall>c \<in> set (takeWhile is_space t). is_space c"
    by (auto dest: set_takeWhileD)
  moreover have "\<forall>c \<in> set (rev (takeWhile is_space (rev ?a))). is_space c"
    by (auto dest: set_takeWhileD)
  ultimately show ?thesis by blast
qed

lemma strip_ends:
  "strip t \<noteq> [] \<Longrightarrow> \<not> is_space (hd (strip t)) \<and> \<not> is_space (last (strip t))"
proof -
  assume ne: "strip t \<noteq> []"
  let ?a = "dropWhile is_space t"
  let ?b = "dropWhile is_space (rev ?a)"
  have b: "?b \<noteq> []" using ne by (simp add: strip_def)
  then have hb: "\<not> is_space (hd ?b)" by (rule hd_dropWhile)
  have last: "last (strip t) = hd ?b"
    using b by (simp add: strip_def last_rev)
  have "?a \<noteq> []"
  proof
    assume "?a = []"
    then have "?b = []" by (simp only: rev.simps dropWhile.simps)
    with b show False by blast
  qed
  then have ha: "\<not> is_space (hd ?a)" by (rule hd_dropWhile)
  obtain k where "rev ?a = k @ ?b" by (metis takeWhile_dropWhile_id)
  then have "?a = rev ?b @ rev k" by (metis rev_append rev_rev_ident)
  then have "hd ?a = hd (rev ?b)" using b by (metis hd_append2 rev_is_Nil_conv)
  then have "\<not> is_space (hd (strip t))" using ha by (simp add: strip_def)
  then show ?thesis using hb last by simp
qed


lemma prompt_of_inject: "prompt_of a = prompt_of b \<longleftrightarrow> a = b"
  by (simp add: prompt_of_def)

text \<open>
  Claim C7. For a \<open>/summarize\<close> request with the credential set and a text that is not
  empty: when the remote call raises, or its response has no text to read, the answer is
  status 500 and its error message ends with the text of the exception; when the call
  succeeds, the summary is the response text without its leading and trailing white
  space: the text is the summary between two runs of white space, and the summary neither
  starts nor ends with white space.
\<close>

theorem summarize_upstream_outcome:
  assumes "\<not> key_missing key"
    and "dict_get data ''text'' JNull = Inr txt"
    and "truthy txt"
  shows "(\<forall>x. model (prompt_of (format_value shown txt)) = Inl x \<longrightarrow>
            summarize_text key model shown w (Inr data) =
              (error_response (''Failed to generate summary: '' @ str_of x) 500,
               print (''Error during summarization: '' @ str_of x) w))
       \<and> (\<forall>resp x. model (prompt_of (format_value shown txt)) = Inr resp
              \<and> response_text resp = Inl x \<longrightarrow>
            summarize_text key model shown w (Inr data) =
              (error_response (''Failed to generate summary: '' @ str_of x) 500,
               print (''Error during summarization: '' @ str_of x) w))
       \<and> (\<forall>resp t. model (prompt_of (format_value shown txt)) = Inr resp
              \<and> response_text resp = Inr t \<longrightarrow>
            summarize_text key model shown w (Inr data) =
              (jsonify [(''summary'', JStr (strip t))] 200, w)
            \<and> (\<exists>l r. t = l @ strip t @ r
                  \<and> (\<forall>c \<in> set l. is_space c) \<and> (\<forall>c \<in> set r. is_space c))
            \<and> (strip t \<noteq> [] \<longrightarrow>
                  \<not> is_space (hd (strip t)) \<and> \<not> is_space (last (strip t))))"
proof -
  let ?p = "prompt_of (format_value shown txt)"
  have call_fails: "summarize_text key model shown w (Inr data) =
              (error_response (''Failed to generate summary: '' @ str_of x) 500,
               print (''Error during summarization: '' @ str_of x) w)"
    if "model ?p = Inl x" for x
    using assms that by (simp add: summarize_text_def summarize_body_def)
  have text_fails: "summarize_text key model shown w (Inr data) =
              (error_response (''Failed to generate summary: '' @ str_of x) 500,
               print (''Error during summarization: '' @ str_of x) w)"
    if "model ?p = Inr resp" and "response_text resp = Inl x" for resp x
    using assms that by (simp add: summarize_text_def summarize_body_def)
  have succeeds: "summarize_text key model shown w (Inr data) =
              (jsonify [(''summary'', JStr (strip t))] 200, w)"
    if "model ?p = Inr resp" and "response_text resp = Inr t" for resp t
    using assms that by (simp add: summarize_text_def summarize_body_def)
  show ?thesis
    using call_fails text_fails succeeds strip_as_affixes strip_ends by blast
qed

theorem summarize_upstream_outcome_witness:
  "summarize_text (Some ''secret'') demo_model demo_repr demo_world
      (Inr (JObj [(''text'', JStr ''quota'')]))
     = (error_response ''Failed to generate summary: 429 quota exceeded'' 500,
        print ''Error during summarization: 429 quota exceeded'' demo_world)
   \<and> summarize_text (Some ''secret'') demo_model demo_repr demo_world
      (Inr (JObj [(''text'', JStr ''blocked'')]))
     = (error_response ''Failed to generate summary: response has no candidates'' 500,
        print ''Error during summarization: response has no candidates'' demo_world)
   \<and> summarize_text (Some ''secret'') demo_model demo_repr demo_world
      (Inr (JObj [(''text'', JStr ''one three'')]))
     = (jsonify [(''summary'', JStr (''* first point'' @ newline @ ''* second point''))] 200,
        demo_world)"
proof -
  have key: "\<not> key_missing (Some ''secret'')"
    by (simp add: key_missing_def)
  have field: "dict_get (JObj [(''text'', JStr s)]) ''text'' JNull = Inr (JStr s)" for s
    by (simp add: dict_get_def)
  have fmt: "format_value demo_repr (JStr s) = s" for s
    by (simp add: format_value_def)
  have quota: "demo_model (prompt_of ''quota'') = Inl (Exn OtherException ''429 quota exceeded'')"
    by (simp add: demo_model_def)
  have blocked: "demo_model (prompt_of ''blocked'')
      = Inr (GenResponse (Inl (Exn ValueError ''response has no candidates'')))"
    by (simp add: demo_model_def prompt_of_inject)
  have other: "demo_model (prompt_of ''one three'')
      = Inr (GenResponse (Inr demo_answer))"
    by (simp add: demo_model_def prompt_of_inject)
  have stripped: "strip demo_answer
      = ''* first point'' @ newline @ ''* second point''"
    by (simp add: strip_def demo_answer_def newline_def is_space_def)
  have t: "truthy (JStr ''quota'')" "truthy (JStr ''blocked'')" "truthy (JStr ''one three'')"
    by simp_all
  show ?thesis
    using
      summarize_upstream_outcome[OF key field t(1), of demo_model demo_repr demo_world,
        THEN conjunct1, rule_format, of "Exn OtherException ''429 quota exceeded''"]
      summarize_upstream_outcome[OF key field t(2), of demo_model demo_repr demo_world,
        THEN conjunct2, THEN conjunct1, rule_format,
        of "GenResponse (Inl (Exn ValueError ''response has no candidates''))"
           "Exn ValueError ''response has no candidates''"]
      summarize_upstream_outcome[OF key field t(3), of demo_model demo_repr demo_world,
        THEN conjunct2, THEN conjunct2, rule_format,
        of "GenResponse (Inr demo_answer)"
           demo_answer]
      quota blocked other
    by (simp add: fmt stripped)
qed

section \<open>Properties of the speech route\<close>

text \<open>
  Claim C8. For a \<open>/tts\<close> request with a text that is not empty, when no call of the
  speech engine raises, the answer is the JSON object with \<open>status\<close> equal to
  \<open>completed\<close> and an \<open>audio_url\<close> that starts with \<open>/audio/\<close>, status 200. The check
  of the output file only prints: when the file is missing or empty after the synthesis,
  one warning line is printed and the answer is the same.
\<close>

theorem tts_completed_despite_missing_file:
  assumes "dict_get data ''text'' JNull = Inr txt" and "truthy txt"
    and "init_raises engine = None" and "save_to_file_raises engine = None"
    and "snd (runAndWait engine txt) = None" and "stop_raises engine = None"
  shows "fst (text_to_speech engine uuid4 w (Inr data)) =
           jsonify [(''status'', JStr ''completed''),
                    (''audio_url'', JStr (''/audio/'' @ uuid4 @ ''.mp3''))] 200
       \<and> printed (snd (text_to_speech engine uuid4 w (Inr data))) =
           (if fs (snd (text_to_speech engine uuid4 w (Inr data)))
                 (path_join AUDIO_FOLDER (uuid4 @ ''.mp3'')) \<in> {None, Some []}
            then printed w @ [''Warning: TTS file might be empty or not created: ''
                              @ path_join AUDIO_FOLDER (uuid4 @ ''.mp3'')]
            else printed w)"
proof -
  obtain written where run: "runAndWait engine txt = (written, None)"
    using assms(5) by (cases "runAndWait engine txt") simp
  show ?thesis
    using assms(1-4,6) run
    by (cases written)
       (auto simp: text_to_speech_def text_to_speech_body_def Let_def path_exists_def
          getsize_def print_def split: option.splits)
qed

theorem tts_completed_despite_missing_file_witness:
  "text_to_speech silent_engine ''77aa'' demo_world (Inr (JObj [(''text'', JStr ''one '')]))
     = (jsonify [(''status'', JStr ''completed''), (''audio_url'', JStr ''/audio/77aa.mp3'')] 200,
        print ''Warning: TTS file might be empty or not created: audio_output/77aa.mp3''
          demo_world)
   \<and> fs demo_world ''audio_output/77aa.mp3'' = None
   \<and> fst (text_to_speech working_engine ''77aa'' demo_world (Inr (JObj [(''text'', JStr ''one '')])))
     = jsonify [(''status'', JStr ''completed''), (''audio_url'', JStr ''/audio/77aa.mp3'')] 200"
proof -
  have field: "dict_get (JObj [(''text'', JStr ''one '')]) ''text'' JNull = Inr (JStr ''one '')"
    by (simp add: dict_get_def)
  have t: "truthy (JStr ''one '')" by simp
  have silent: "init_raises silent_engine = None" "save_to_file_raises silent_engine = None"
    "snd (runAndWait silent_engine (JStr ''one '')) = None" "stop_raises silent_engine = None"
    by (simp_all add: silent_engine_def)
  have working: "init_raises working_engine = None" "save_to_file_raises working_engine = None"
    "snd (runAndWait working_engine (JStr ''one '')) = None" "stop_raises working_engine = None"
    by (simp_all add: working_engine_def)
  have same_fs: "fs (snd (text_to_speech silent_engine ''77aa'' demo_world
      (Inr (JObj [(''text'', JStr ''one '')])))) = fs demo_world"
    by (simp add: text_to_speech_def text_to_speech_body_def dict_get_def silent_engine_def
        Let_def print_def)
  have rest: "snd (text_to_speech silent_engine ''77aa'' demo_world
      (Inr (JObj [(''text'', JStr ''one '')]))) =
      demo_world\<lparr>printed := printed (snd (text_to_speech silent_engine ''77aa'' demo_world
      (Inr (JObj [(''text'', JStr ''one '')]))))\<rparr>"
    by (simp add: text_to_speech_def text_to_speech_body_def dict_get_def silent_engine_def
        Let_def print_def)
  have absent: "fs demo_world ''audio_output/77aa.mp3'' = None"
    by (simp add: demo_world_def)
  have path: "path_join AUDIO_FOLDER ''77aa.mp3'' = ''audio_output/77aa.mp3''"
    by (simp add: path_join_def AUDIO_FOLDER_def)
  note s = tts_completed_despite_missing_file[OF field t silent, of "''77aa''" demo_world]
  note k = tts_completed_despite_missing_file[OF field t working, of "''77aa''" demo_world]
  have "text_to_speech silent_engine ''77aa'' demo_world (Inr (JObj [(''text'', JStr ''one '')]))
     = (jsonify [(''status'', JStr ''completed''), (''audio_url'', JStr ''/audio/77aa.mp3'')] 200,
        print ''Warning: TTS file might be empty or not created: audio_output/77aa.mp3''
          demo_world)"
    using s same_fs absent path rest
    by (simp add: prod_eq_iff print_def)
  then show ?thesis
    using k absent by simp
qed

section \<open>Stored files\<close>

lemma print_fs: "fs (print line w) = fs w"
  by (simp add: print_def)

lemma extract_text_from_pdf_fs: "fs (snd (extract_text_from_pdf reader w p s e)) = fs w"
  by (simp add: extract_text_from_pdf_def print_fs split: sum.splits)

lemma get_text_fs: "fs (snd (get_text reader w rj)) = fs w"
proof -
  have lookup: "fs (snd (text_lookup reader w sf s e)) = fs w" for sf s e
  proof (cases sf)
    case (JStr name)
    show ?thesis
      using extract_text_from_pdf_fs[of reader w "path_join UPLOAD_FOLDER name" s e]
      by (cases "extract_text_from_pdf reader w (path_join UPLOAD_FOLDER name) s e")
         (auto simp: JStr text_lookup_def Let_def split: sum.splits)
  qed (simp_all add: text_lookup_def)
  have "fs (snd (get_text_body reader w rj)) = fs w"
    using lookup by (simp add: get_text_body_def split: sum.splits prod.splits)
  then show ?thesis
    by (cases "get_text_body reader w rj")
       (auto simp: get_text_def print_fs split: sum.splits)
qed

lemma summarize_text_fs: "fs (snd (summarize_text key model shown w rj)) = fs w"
  by (simp add: summarize_text_def print_fs split: sum.splits)

lemma upload_pdf_fs:
  "Some p \<noteq> target_path (POST_upload files uuid4) \<Longrightarrow>
   fs (snd (upload_pdf reader uuid4 w files)) p = fs w p"
  by (auto simp: upload_pdf_def Let_def print_fs split: option.splits sum.splits)

lemma text_to_speech_fs:
  "p \<noteq> path_join AUDIO_FOLDER (uuid4 @ ''.mp3'') \<Longrightarrow>
   fs (snd (text_to_speech engine uuid4 w rj)) p = fs w p"
proof -
  assume p: "p \<noteq> path_join AUDIO_FOLDER (uuid4 @ ''.mp3'')"
  have "fs (snd (text_to_speech_body engine uuid4 w rj)) p = fs w p"
    using p
    by (auto simp: text_to_speech_body_def Let_def print_fs split: sum.splits option.splits prod.splits)
  then show ?thesis
    by (cases "text_to_speech_body engine uuid4 w rj")
       (auto simp: text_to_speech_def print_fs split: sum.splits)
qed

lemma handle_frame:
  "Some p \<noteq> target_path r \<Longrightarrow> fs (snd (handle sv w r)) p = fs w p"
proof (cases r)
  case (POST_upload files uuid4)
  then show "Some p \<noteq> target_path r \<Longrightarrow> ?thesis"
    using upload_pdf_fs[of p files uuid4] by simp
next
  case (POST_tts rj engine uuid4)
  then show "Some p \<noteq> target_path r \<Longrightarrow> ?thesis"
    using text_to_speech_fs[of p uuid4] by simp
qed (simp_all add: get_text_fs summarize_text_fs)

lemma serve_keeps_files:
  "fresh_names sv w rs \<Longrightarrow> fs w p = Some bytes \<Longrightarrow> fs (serve sv w rs) p = Some bytes"
proof (induction rs arbitrary: w)
  case Nil
  then show ?case by simp
next
  case (Cons r rs)
  have "Some p \<noteq> target_path r"
    using Cons.prems by (auto split: option.splits)
  then have "fs (snd (handle sv w r)) p = Some bytes"
    using handle_frame[of p r sv w] Cons.prems(2) by simp
  moreover have "fresh_names sv (snd (handle sv w r)) rs"
    using Cons.prems(1) by simp
  ultimately show ?case
    using Cons.IH by simp
qed

text \<open>
  Claim C9. Stored files are written once. Over any sequence of requests whose generated
  names are fresh, every file present at the start is present with the same content at
  the end. A \<open>/text\<close> request leaves the whole file system as it is; any request leaves
  every path but the one it stores at as it is, and \<open>/upload\<close> and \<open>/tts\<close> store at one
  path only, the folder joined with the generated name; a request that stores nothing
  (\<open>/text\<close>, \<open>/summarize\<close>, \<open>/audio\<close>) changes no file.
\<close>

theorem stored_files_are_kept:
  "(fresh_names sv w rs \<longrightarrow>
      (\<forall>p bytes. fs w p = Some bytes \<longrightarrow> fs (serve sv w rs) p = Some bytes))
   \<and> fs (snd (handle sv w (POST_text rj))) = fs w
   \<and> (\<forall>p. Some p \<noteq> target_path r \<longrightarrow> fs (snd (handle sv w r)) p = fs w p)
   \<and> (target_path r = None \<longrightarrow> fs (snd (handle sv w r)) = fs w)"
proof -
  have "fs (snd (handle sv w r)) = fs w" if "target_path r = None"
  proof
    fix p
    show "fs (snd (handle sv w r)) p = fs w p"
      using handle_frame[of p r sv w] that by simp
  qed
  then show ?thesis
    using serve_keeps_files handle_frame by (simp add: get_text_fs)
qed

lemma demo_fresh: "fresh_names demo_service demo_world demo_requests"
  by (simp add: demo_requests_def demo_service_def demo_files_def demo_world_def
      generate_unique_filename_def splitext_ext_def path_join_def UPLOAD_FOLDER_def
      AUDIO_FOLDER_def upload_pdf_def demo_extension open_pdf_def demo_reader_def
      Let_def get_text_fs)

theorem stored_files_are_kept_witness:
  "fresh_names demo_service demo_world demo_requests
   \<and> fs demo_world ''uploads/doc.pdf'' = Some ''%PDF-demo''
   \<and> fs (serve demo_service demo_world demo_requests) ''uploads/doc.pdf'' = Some ''%PDF-demo''
   \<and> fs (serve demo_service demo_world demo_requests) ''uploads/bad.pdf'' = Some ''%PDF-broken''"
proof -
  have doc: "fs demo_world ''uploads/doc.pdf'' = Some ''%PDF-demo''"
    and bad: "fs demo_world ''uploads/bad.pdf'' = Some ''%PDF-broken''"
    by (simp_all add: demo_world_def)
  show ?thesis
    using demo_fresh doc bad
      stored_files_are_kept[of demo_service demo_world demo_requests, THEN conjunct1]
    by simp
qed

section \<open>Error responses\<close>

lemma serve_audio_lets_other_exceptions_out:
  "send AUDIO_FOLDER name = Inl x \<Longrightarrow> class_of x \<noteq> FileNotFoundError \<Longrightarrow>
   serve_audio send name = Inl x"
  by (simp add: serve_audio_def)

lemma send_from_directory_never_file_not_found:
  "send_from_directory w directory name = Inl x \<Longrightarrow> class_of x = NotFound"
  by (auto simp: send_from_directory_def split: option.splits)

lemma json_error_error_response: "json_error (error_response msg code)"
  by (simp add: json_error_def error_response_def jsonify_def)

lemma upload_pdf_answers_json:
  "status (fst (upload_pdf reader uuid4 w files)) = 200 \<or> json_error (fst (upload_pdf reader uuid4 w files))"
  by (auto simp: upload_pdf_def Let_def json_error_error_response jsonify_def
      split: option.splits sum.splits)

lemma get_text_answers_json:
  "status (fst (get_text reader w rj)) = 200 \<or> json_error (fst (get_text reader w rj))"
proof -
  have lookup: "\<And>r w'. text_lookup reader w sf s e = (Inr r, w') \<Longrightarrow> status r = 200 \<or> json_error r"
    for sf s e
    by (auto simp: text_lookup_def Let_def json_error_error_response jsonify_def
        split: if_splits json.splits sum.splits prod.splits)
  have "\<And>r w'. get_text_body reader w rj = (Inr r, w') \<Longrightarrow> status r = 200 \<or> json_error r"
    using lookup by (auto simp: get_text_body_def split: sum.splits prod.splits)
  then show ?thesis
    by (cases "get_text_body reader w rj")
       (auto simp: get_text_def json_error_error_response split: sum.splits)
qed

lemma summarize_text_answers_json:
  "status (fst (summarize_text key model shown w rj)) = 200
   \<or> json_error (fst (summarize_text key model shown w rj))"
  by (auto simp: summarize_text_def summarize_body_def json_error_error_response jsonify_def
      split: sum.splits if_splits)

lemma text_to_speech_answers_json:
  "status (fst (text_to_speech engine uuid4 w rj)) = 200
   \<or> json_error (fst (text_to_speech engine uuid4 w rj))"
proof -
  have "\<And>r w'. text_to_speech_body engine uuid4 w rj = (Inr r, w') \<Longrightarrow> status r = 200 \<or> json_error r"
    by (auto simp: text_to_speech_body_def Let_def json_error_error_response jsonify_def
        split: sum.splits option.splits prod.splits if_splits)
  then show ?thesis
    by (cases "text_to_speech_body engine uuid4 w rj")
       (auto simp: text_to_speech_def json_error_error_response split: sum.splits)
qed

lemma post_routes_answer_json:
  "(\<forall>name. r \<noteq> GET_audio name) \<Longrightarrow>
   status (fst (handle sv w r)) = 200 \<or> json_error (fst (handle sv w r))"
  by (cases r)
     (simp_all add: upload_pdf_answers_json get_text_answers_json summarize_text_answers_json
        text_to_speech_answers_json)

text \<open>
  Claim C3 says that every route answers a failure with a JSON object that has an
  \<open>error\<close> string, and that \<open>GET /audio/<filename>\<close> for a name with no stored file
  answers 404 with such a body. The four \<open>POST\<close> routes do (\<open>post_routes_answer_json\<close>).
  \<open>serve_audio\<close> handles \<open>FileNotFoundError\<close> only, while the framework's function
  raises \<open>NotFound\<close> for a missing file: at the name \<open>missing.mp3\<close> the exception leaves
  the view and the answer is the framework's 404 page, whose body is not JSON.
\<close>

theorem missing_audio_is_not_json:
  "fs demo_world (path_join AUDIO_FOLDER ''missing.mp3'') = None
   \<and> serve_audio (send_from_directory demo_world) ''missing.mp3''
       = Inl (Exn NotFound ''404 Not Found'')
   \<and> handle demo_service demo_world (GET_audio ''missing.mp3'')
       = (Response (HtmlBody ''<h1>Not Found</h1>'') 404, demo_world)
   \<and> \<not> json_error (fst (handle demo_service demo_world (GET_audio ''missing.mp3'')))"
  by (simp add: serve_audio_def send_from_directory_def dispatch_def demo_world_def
      path_join_def AUDIO_FOLDER_def json_error_def)

end
